theory Spec2Isabelle
  imports
    Complex_Main
    "HOL-Library.AList"
    "HOL-Library.Char_ord"
    "HOL-Library.List_Lexorder"
begin

section \<open>Python values seen by \<open>Condition.__init__\<close>\<close>

text \<open>
  The constructor inspects its arguments only through \<open>isinstance(_, LabelTensor)\<close>,
  \<open>isinstance(_, Location)\<close>, \<open>isinstance(_, list)\<close> and \<open>callable(_)\<close>.
  \<open>LabelTensor\<close> and \<open>Location\<close> are imported classes; an instance is opaque here:
  its class, whether its type defines \<open>__call__\<close>, and an identity.
  A float is the rational it denotes (no arithmetic is done on it).
\<close>

datatype pyclass = LabelTensor | Location | OtherClass

datatype pyval =
    PyNone
  | PyInt int
  | PyFloat rat
  | PyStr string
  | PyList "pyval list"
  | PyTuple "pyval list"
  | PyFunction nat
  | PyInstance pyclass bool nat

fun isinstance :: "pyval \<Rightarrow> pyclass \<Rightarrow> bool" where
  "isinstance (PyInstance c _ _) cls = (c = cls)"
| "isinstance _ cls = False"

fun isinstance_list :: "pyval \<Rightarrow> bool" where
  "isinstance_list (PyList _) = True"
| "isinstance_list _ = False"

fun callable :: "pyval \<Rightarrow> bool" where
  "callable (PyFunction _) = True"
| "callable (PyInstance _ has_call _) = has_call"
| "callable _ = False"

text \<open>
  Exceptions. \<open>ValueError\<close> and \<open>TypeError\<close> carry their message;
  \<open>AttributeError\<close> carries the name of the attribute.
\<close>

datatype exn = ValueError string | TypeError string | AttributeError string

type_synonym kwargs = "(string \<times> pyval) list"

section \<open>Rendering of f-string fields\<close>

text \<open>\<open>str(i)\<close> of a non-negative integer: the decimal digits.\<close>

definition digit_char :: "nat \<Rightarrow> char" where
  "digit_char d = ''0123456789abcdef'' ! d"

function str_nat :: "nat \<Rightarrow> string" where
  "str_nat n = (if n < 10 then [digit_char n] else str_nat (n div 10) @ [digit_char (n mod 10)])"
  by pat_completeness auto
termination
  by (relation "measure id") auto

text \<open>
  \<open>repr\<close> of a \<open>str\<close> whose code points are below 256: the quote is \<open>"\<close> when the
  string has a \<open>'\<close> and no \<open>"\<close>, otherwise \<open>'\<close>; the quote and the backslash are
  escaped, tab, newline and carriage return are written \<open>\t \n \r\<close>, and any
  other non-printable code point is written \<open>\xhh\<close>.
\<close>

definition isprintable :: "char \<Rightarrow> bool" where
  "isprintable c = (let n = (of_char c :: nat) in (32 \<le> n \<and> n < 127) \<or> (161 \<le> n \<and> n \<noteq> 173))"

definition repr_char :: "char \<Rightarrow> char \<Rightarrow> string" where
  "repr_char q c =
    (if c = q \<or> c = CHR 0x5C then [CHR 0x5C, c]
     else if c = CHR 0x09 then [CHR 0x5C, CHR ''t'']
     else if c = CHR 0x0A then [CHR 0x5C, CHR ''n'']
     else if c = CHR 0x0D then [CHR 0x5C, CHR ''r'']
     else if \<not> isprintable c then
       [CHR 0x5C, CHR ''x'', digit_char (of_char c div 16), digit_char (of_char c mod 16)]
     else [c])"

definition repr_str :: "string \<Rightarrow> string" where
  "repr_str s =
    (let q = (if CHR 0x27 \<in> set s \<and> CHR 0x22 \<notin> set s then CHR 0x22 else CHR 0x27)
     in [q] @ concat (map (repr_char q) s) @ [q])"

fun join :: "string \<Rightarrow> string list \<Rightarrow> string" where
  "join sep [] = []"
| "join sep [x] = x"
| "join sep (x # y # ys) = x @ sep @ join sep (y # ys)"

text \<open>\<open>str(kwargs.keys())\<close>, as in \<open>dict_keys(['location', 'function'])\<close>.\<close>

definition str_dict_keys :: "string list \<Rightarrow> string" where
  "str_dict_keys ks = ''dict_keys(['' @ join '', '' (map repr_str ks) @ ''])''"

section \<open>The class \<open>Condition\<close>\<close>

text \<open>
  An instance has the five slots of \<open>__slots__\<close> and no \<open>__dict__\<close>; a slot is
  unset (\<open>None\<close> here) until it is assigned.
\<close>

record Condition =
  input_points :: "pyval option"
  output_points :: "pyval option"
  location :: "pyval option"
  "function" :: "pyval option"
  data_weight :: "pyval option"

definition slots :: "string list" where
  "slots = [''input_points'', ''output_points'', ''location'', ''function'', ''data_weight'']"

text \<open>The object \<open>__new__\<close> hands to \<open>__init__\<close>: every slot unset.\<close>

definition new_Condition :: Condition where
  "new_Condition =
    \<lparr>input_points = None, output_points = None, location = None, function = None,
     data_weight = None\<rparr>"

text \<open>
  The name of a value's type, as \<open>type(v).__name__\<close>; an instance has the type the
  model gives it.
\<close>

fun type_name :: "pyval \<Rightarrow> string" where
  "type_name PyNone = ''NoneType''"
| "type_name (PyInt _) = ''int''"
| "type_name (PyFloat _) = ''float''"
| "type_name (PyStr _) = ''str''"
| "type_name (PyList _) = ''list''"
| "type_name (PyTuple _) = ''tuple''"
| "type_name (PyFunction _) = ''function''"
| "type_name (PyInstance LabelTensor _ _) = ''LabelTensor''"
| "type_name (PyInstance Location _ _) = ''Location''"
| "type_name (PyInstance OtherClass _ _) = ''OtherClass''"

text \<open>
  \<open>setattr(self, key, val)\<close>. A slot is assigned. The name \<open>__class__\<close> is handled by
  \<open>object\<close>: it takes a class only, and no value of the model is a class. No other
  name can be assigned, the instance having no \<open>__dict__\<close>.
\<close>

definition setattr :: "Condition \<Rightarrow> string \<Rightarrow> pyval \<Rightarrow> exn + Condition" where
  "setattr self key val =
    (if key = ''input_points'' then Inr (self\<lparr>input_points := Some val\<rparr>)
     else if key = ''output_points'' then Inr (self\<lparr>output_points := Some val\<rparr>)
     else if key = ''location'' then Inr (self\<lparr>location := Some val\<rparr>)
     else if key = ''function'' then Inr (self\<lparr>function := Some val\<rparr>)
     else if key = ''data_weight'' then Inr (self\<lparr>data_weight := Some val\<rparr>)
     else if key = ''__class__''
       then Inl (TypeError (''__class__ must be set to a class, not '' @ [CHR 0x27] @
                            type_name val @ [CHR 0x27] @ '' object''))
     else Inl (AttributeError key))"

text \<open>
  Reading a slot of an instance: an unset slot raises \<open>AttributeError\<close>. Names that
  are not slots are looked up on the class, which is not modelled; no statement below
  reads one.
\<close>

definition slot :: "Condition \<Rightarrow> string \<Rightarrow> pyval option" where
  "slot self name =
    (if name = ''input_points'' then input_points self
     else if name = ''output_points'' then output_points self
     else if name = ''location'' then location self
     else if name = ''function'' then function self
     else if name = ''data_weight'' then data_weight self
     else None)"

definition getattr :: "Condition \<Rightarrow> string \<Rightarrow> exn + pyval" where
  "getattr self name =
    (case slot self name of None \<Rightarrow> Inl (AttributeError name) | Some v \<Rightarrow> Inr v)"

text \<open>The names of the slots that hold a value.\<close>

definition populated :: "Condition \<Rightarrow> string set" where
  "populated self = {name \<in> set slots. slot self name \<noteq> None}"

definition dictvalue_isinstance :: "kwargs \<Rightarrow> string \<Rightarrow> pyclass \<Rightarrow> bool" where
  "dictvalue_isinstance dict key cls =
    (case map_of dict key of None \<Rightarrow> True | Some v \<Rightarrow> isinstance v cls)"

text \<open>The loop \<open>for i, func in enumerate(kwargs['function'])\<close>, from index \<open>i\<close>.\<close>

fun check_callable :: "nat \<Rightarrow> pyval list \<Rightarrow> exn option" where
  "check_callable i [] = None"
| "check_callable i (func # funcs) =
    (if \<not> callable func
     then Some (TypeError (''`function['' @ str_nat i @ '']` must be a callable function.''))
     else check_callable (Suc i) funcs)"

text \<open>The block \<open>if 'function' in kwargs\<close>: the updated dictionary, or the exception.\<close>

definition check_function :: "kwargs \<Rightarrow> exn + kwargs" where
  "check_function kwargs =
    (case map_of kwargs ''function'' of
       None \<Rightarrow> Inr kwargs
     | Some f \<Rightarrow>
        (let kwargs' = (if \<not> isinstance_list f
                        then AList.update ''function'' (PyList [f]) kwargs else kwargs);
             funcs = (case f of PyList fs \<Rightarrow> fs | _ \<Rightarrow> [f])
         in case check_callable 0 funcs of Some e \<Rightarrow> Inl e | None \<Rightarrow> Inr kwargs'))"

text \<open>The loop \<open>for key, value in kwargs.items(): setattr(self, key, value)\<close>.\<close>

fun setattr_items :: "Condition \<Rightarrow> kwargs \<Rightarrow> Condition \<times> exn option" where
  "setattr_items self [] = (self, None)"
| "setattr_items self ((key, val) # items) =
    (case setattr self key val of
       Inl e \<Rightarrow> (self, Some e)
     | Inr self' \<Rightarrow> setattr_items self' items)"

definition positional_message :: string where
  "positional_message = ''Condition takes only the following keyword arguments: {`input_points`, `output_points`, `location`, `function`, `data_weight`}.''"

definition invalid_keywords_message :: "string list \<Rightarrow> string" where
  "invalid_keywords_message ks = ''Invalid keyword arguments '' @ str_dict_keys ks @ ''.''"

text \<open>
  \<open>__init__(self, *args, **kwargs)\<close>: the object as the method leaves it, and the
  exception it raises, if any. A dictionary is the list of its items in insertion
  order; its keys are distinct.
\<close>

definition init :: "Condition \<Rightarrow> pyval list \<Rightarrow> kwargs \<Rightarrow> Condition \<times> exn option" where
  "init self0 args kwargs0 =
    (let self = self0\<lparr>data_weight :=
                  Some (case map_of kwargs0 ''data_weight'' of None \<Rightarrow> PyFloat 1 | Some w \<Rightarrow> w)\<rparr>;
         kwargs = AList.delete ''data_weight'' kwargs0
     in
       if length args \<noteq> 0 then (self, Some (ValueError positional_message))
       else if sort (map fst kwargs) \<noteq> sort [''input_points'', ''output_points''] \<and>
               sort (map fst kwargs) \<noteq> sort [''location'', ''function''] \<and>
               sort (map fst kwargs) \<noteq> sort [''input_points'', ''function'']
         then (self, Some (ValueError (invalid_keywords_message (map fst kwargs))))
       else if \<not> dictvalue_isinstance kwargs ''input_points'' LabelTensor
         then (self, Some (TypeError ''`input_points` must be a torch.Tensor.''))
       else if \<not> dictvalue_isinstance kwargs ''output_points'' LabelTensor
         then (self, Some (TypeError ''`output_points` must be a torch.Tensor.''))
       else if \<not> dictvalue_isinstance kwargs ''location'' Location
         then (self, Some (TypeError ''`location` must be a Location.''))
       else
         (case check_function kwargs of
            Inl e \<Rightarrow> (self, Some e)
          | Inr kwargs' \<Rightarrow> setattr_items self kwargs'))"

text \<open>
  The expression \<open>Condition(*args, **kwargs)\<close>. The arguments are first bound to the
  parameters of \<open>__init__(self, *args, **kwargs)\<close>: a keyword named \<open>self\<close> collides
  with the first parameter, and the call raises \<open>TypeError\<close> before the body runs (the
  text is the interpreter's). Otherwise the result is the initialised object, or the
  exception of \<open>__init__\<close> (the object is then dropped).
\<close>

definition binding_message :: string where
  "binding_message =
     ''Condition.__init__() got multiple values for argument 'self'' @ [CHR 0x27]"

definition Condition_call :: "pyval list \<Rightarrow> kwargs \<Rightarrow> exn + Condition" where
  "Condition_call args kwargs =
    (if ''self'' \<in> set (map fst kwargs) then Inl (TypeError binding_message)
     else case init new_Condition args kwargs of
            (self, None) \<Rightarrow> Inr self
          | (self, Some e) \<Rightarrow> Inl e)"

text \<open>The key-set the constructor tests: the keys left after \<open>data_weight\<close> is popped.\<close>

definition keyset :: "kwargs \<Rightarrow> string set" where
  "keyset kwargs = set (map fst kwargs) - {''data_weight''}"

definition valid_keysets :: "string set set" where
  "valid_keysets =
    {{''input_points'', ''output_points''}, {''location'', ''function''},
     {''input_points'', ''function''}}"

section \<open>Objects with identity\<close>

text \<open>
  To tell what a constructed object shares with its caller and with other objects, the
  constructor is read once more with every object taken by reference. The store holds
  the objects that exist, an object's address being its index. A list holds the
  addresses of its elements; an instance of \<open>Condition\<close> holds, for each slot that is
  set, the address of its value, in the order of assignment; any other object is the
  value it is above (and is never a list there). Nothing is ever freed.
\<close>

type_synonym addr = nat

datatype cell =
    Atom pyval
  | ListCell "addr list"
  | ConditionCell "(string \<times> addr) list"

type_synonym store = "cell list"

type_synonym kwargs_ref = "(string \<times> addr) list"

text \<open>The object at an address, if there is one.\<close>

definition cell_at :: "store \<Rightarrow> addr \<Rightarrow> cell option" where
  "cell_at h a = (if a < length h then Some (h ! a) else None)"

text \<open>A new object takes the next address.\<close>

definition alloc :: "store \<Rightarrow> cell \<Rightarrow> store \<times> addr" where
  "alloc h c = (h @ [c], length h)"

text \<open>
  \<open>isinstance(_, cls)\<close>, \<open>isinstance(_, list)\<close> and \<open>callable(_)\<close> of the object at an
  address; a list is an instance of neither class and is not callable, nor is an
  instance of \<open>Condition\<close>.
\<close>

definition isinstance_ref :: "store \<Rightarrow> addr \<Rightarrow> pyclass \<Rightarrow> bool" where
  "isinstance_ref h a cls = (case cell_at h a of Some (Atom v) \<Rightarrow> isinstance v cls | _ \<Rightarrow> False)"

definition isinstance_list_ref :: "store \<Rightarrow> addr \<Rightarrow> bool" where
  "isinstance_list_ref h a = (case cell_at h a of Some (ListCell _) \<Rightarrow> True | _ \<Rightarrow> False)"

definition callable_ref :: "store \<Rightarrow> addr \<Rightarrow> bool" where
  "callable_ref h a = (case cell_at h a of Some (Atom v) \<Rightarrow> callable v | _ \<Rightarrow> False)"

text \<open>\<open>type(_).__name__\<close> of an object.\<close>

definition cell_type_name :: "cell \<Rightarrow> string" where
  "cell_type_name c =
    (case c of Atom v \<Rightarrow> type_name v | ListCell _ \<Rightarrow> ''list'' | ConditionCell _ \<Rightarrow> ''Condition'')"

text \<open>
  The constant \<open>1.0\<close> of the code of \<open>__init__\<close> is one object, there before any call:
  the store of a call holds it at this address.
\<close>

definition float_one :: addr where
  "float_one = 0"

text \<open>The address a slot of the instance at \<open>self\<close> holds, if the slot is set.\<close>

definition slot_ref :: "store \<Rightarrow> addr \<Rightarrow> string \<Rightarrow> addr option" where
  "slot_ref h self name =
    (case cell_at h self of Some (ConditionCell attrs) \<Rightarrow> map_of attrs name | _ \<Rightarrow> None)"

text \<open>
  \<open>setattr(self, key, value)\<close> on the instance at \<open>self\<close>: the slot then holds the
  address of the value. The last case cannot arise: \<open>self\<close> is an instance of
  \<open>Condition\<close>.
\<close>

definition setattr_ref :: "store \<Rightarrow> addr \<Rightarrow> string \<Rightarrow> addr \<Rightarrow> exn + store" where
  "setattr_ref h self key a =
    (case cell_at h self of
       Some (ConditionCell attrs) \<Rightarrow>
         if key \<in> set slots then Inr (h[self := ConditionCell (AList.update key a attrs)])
         else if key = ''__class__'' then
           (case cell_at h a of
              Some c \<Rightarrow> Inl (TypeError (''__class__ must be set to a class, not '' @ [CHR 0x27] @
                                         cell_type_name c @ [CHR 0x27] @ '' object''))
            | None \<Rightarrow> Inl (AttributeError key))
         else Inl (AttributeError key)
     | _ \<Rightarrow> Inl (AttributeError key))"

text \<open>\<open>_dictvalue_isinstance\<close>, the dictionary holding addresses.\<close>

definition dictvalue_isinstance_ref :: "store \<Rightarrow> kwargs_ref \<Rightarrow> string \<Rightarrow> pyclass \<Rightarrow> bool" where
  "dictvalue_isinstance_ref h dict key cls =
    (case map_of dict key of None \<Rightarrow> True | Some a \<Rightarrow> isinstance_ref h a cls)"

text \<open>The loop over the elements of the list of functions, from index \<open>i\<close>.\<close>

fun check_callable_ref :: "store \<Rightarrow> nat \<Rightarrow> addr list \<Rightarrow> exn option" where
  "check_callable_ref h i [] = None"
| "check_callable_ref h i (func # funcs) =
    (if \<not> callable_ref h func
     then Some (TypeError (''`function['' @ str_nat i @ '']` must be a callable function.''))
     else check_callable_ref h (Suc i) funcs)"

text \<open>
  The block \<open>if 'function' in kwargs\<close>. The expression \<open>[kwargs['function']]\<close> builds a
  new list, whose one element is the object that was passed; a list that was passed is
  kept as the object it is.
\<close>

definition check_function_ref :: "store \<Rightarrow> kwargs_ref \<Rightarrow> store \<times> (exn + kwargs_ref)" where
  "check_function_ref h kwargs =
    (case map_of kwargs ''function'' of
       None \<Rightarrow> (h, Inr kwargs)
     | Some f \<Rightarrow>
        (let (h', kwargs') =
               (if \<not> isinstance_list_ref h f
                then (let (h', l) = alloc h (ListCell [f])
                      in (h', AList.update ''function'' l kwargs))
                else (h, kwargs));
             funcs = (case cell_at h f of Some (ListCell es) \<Rightarrow> es | _ \<Rightarrow> [f])
         in case check_callable_ref h' 0 funcs of
              Some e \<Rightarrow> (h', Inl e)
            | None \<Rightarrow> (h', Inr kwargs')))"

text \<open>The loop \<open>for key, value in kwargs.items(): setattr(self, key, value)\<close>.\<close>

fun setattr_items_ref :: "store \<Rightarrow> addr \<Rightarrow> kwargs_ref \<Rightarrow> store \<times> exn option" where
  "setattr_items_ref h self [] = (h, None)"
| "setattr_items_ref h self ((key, a) # items) =
    (case setattr_ref h self key a of
       Inl e \<Rightarrow> (h, Some e)
     | Inr h' \<Rightarrow> setattr_items_ref h' self items)"

text \<open>
  \<open>__init__(self, *args, **kwargs)\<close> on the instance at \<open>self\<close>: the store as the method
  leaves it, and the exception it raises, if any.
\<close>

definition init_ref :: "store \<Rightarrow> addr \<Rightarrow> addr list \<Rightarrow> kwargs_ref \<Rightarrow> store \<times> exn option" where
  "init_ref h0 self args kwargs0 =
    (let w = (case map_of kwargs0 ''data_weight'' of None \<Rightarrow> float_one | Some a \<Rightarrow> a);
         kwargs = AList.delete ''data_weight'' kwargs0
     in case setattr_ref h0 self ''data_weight'' w of
          Inl e \<Rightarrow> (h0, Some e)
        | Inr h \<Rightarrow>
            if length args \<noteq> 0 then (h, Some (ValueError positional_message))
            else if sort (map fst kwargs) \<noteq> sort [''input_points'', ''output_points''] \<and>
                    sort (map fst kwargs) \<noteq> sort [''location'', ''function''] \<and>
                    sort (map fst kwargs) \<noteq> sort [''input_points'', ''function'']
              then (h, Some (ValueError (invalid_keywords_message (map fst kwargs))))
            else if \<not> dictvalue_isinstance_ref h kwargs ''input_points'' LabelTensor
              then (h, Some (TypeError ''`input_points` must be a torch.Tensor.''))
            else if \<not> dictvalue_isinstance_ref h kwargs ''output_points'' LabelTensor
              then (h, Some (TypeError ''`output_points` must be a torch.Tensor.''))
            else if \<not> dictvalue_isinstance_ref h kwargs ''location'' Location
              then (h, Some (TypeError ''`location` must be a Location.''))
            else
              (case check_function_ref h kwargs of
                 (h', Inl e) \<Rightarrow> (h', Some e)
               | (h', Inr kwargs') \<Rightarrow> setattr_items_ref h' self kwargs'))"

text \<open>
  The expression \<open>Condition(*args, **kwargs)\<close>: the instance is created with no slot
  set, the arguments are bound, and \<open>__init__\<close> runs on it. The result is the address
  of the instance, or the exception.
\<close>

definition Condition_call_ref :: "store \<Rightarrow> addr list \<Rightarrow> kwargs_ref \<Rightarrow> store \<times> (exn + addr)" where
  "Condition_call_ref h args kwargs =
    (let (h0, self) = alloc h (ConditionCell [])
     in if ''self'' \<in> set (map fst kwargs) then (h0, Inl (TypeError binding_message))
        else case init_ref h0 self args kwargs of
               (h', None) \<Rightarrow> (h', Inr self)
             | (h', Some e) \<Rightarrow> (h', Inl e))"

section \<open>Slots\<close>

lemma slots_cases:
  assumes "key \<in> set slots"
  obtains (i) "key = ''input_points''" | (o) "key = ''output_points''"
    | (l) "key = ''location''" | (f) "key = ''function''" | (d) "key = ''data_weight''"
proof -
  from assms have "key = ''input_points'' \<or> key = ''output_points'' \<or> key = ''location'' \<or>
    key = ''function'' \<or> key = ''data_weight''"
    unfolding slots_def by (simp only: list.set insert_iff empty_iff simp_thms)
  then show thesis
    by (elim disjE) (erule i o l f d)+
qed

lemma setattr_Inr_slots: "setattr self key val = Inr self' \<Longrightarrow> key \<in> set slots"
  unfolding setattr_def slots_def by (simp split: if_splits)

lemma slot_setattr:
  assumes a: "setattr self key val = Inr self'"
  shows "slot self' name = (if name = key then Some val else slot self name)"
  using setattr_Inr_slots [OF a]
proof (cases rule: slots_cases)
  case i
  with a have "self' = self\<lparr>input_points := Some val\<rparr>" by (simp add: setattr_def)
  with i show ?thesis by (simp add: slot_def)
next
  case o
  with a have "self' = self\<lparr>output_points := Some val\<rparr>" by (simp add: setattr_def)
  with o show ?thesis by (simp add: slot_def)
next
  case l
  with a have "self' = self\<lparr>location := Some val\<rparr>" by (simp add: setattr_def)
  with l show ?thesis by (simp add: slot_def)
next
  case f
  with a have "self' = self\<lparr>function := Some val\<rparr>" by (simp add: setattr_def)
  with f show ?thesis by (simp add: slot_def)
next
  case d
  with a have "self' = self\<lparr>data_weight := Some val\<rparr>" by (simp add: setattr_def)
  with d show ?thesis by (simp add: slot_def)
qed

lemma setattr_slots:
  assumes "key \<in> set slots"
  shows "\<exists>self'. setattr self key val = Inr self'"
  using assms by (cases rule: slots_cases) (simp_all add: setattr_def)

lemma slot_data_weight_update:
  "slot (self\<lparr>data_weight := x\<rparr>) name = (if name = ''data_weight'' then x else slot self name)"
  by (simp add: slot_def)

lemma slot_new_Condition: "slot new_Condition name = None"
  by (simp add: slot_def new_Condition_def)

section \<open>The loops\<close>

lemma check_callable_None: "check_callable i funcs = None \<longleftrightarrow> list_all callable funcs"
  by (induction funcs arbitrary: i) simp_all

lemma check_callable_first:
  "j < length funcs \<Longrightarrow> \<not> callable (funcs ! j) \<Longrightarrow> \<forall>l<j. callable (funcs ! l) \<Longrightarrow>
   check_callable i funcs =
     Some (TypeError (''`function['' @ str_nat (i + j) @ '']` must be a callable function.''))"
proof (induction funcs arbitrary: i j)
  case Nil
  then show ?case by simp
next
  case (Cons f fs)
  show ?case
  proof (cases j)
    case 0
    with Cons.prems show ?thesis by simp
  next
    case (Suc j')
    from Suc Cons.prems(3) have c: "callable f" by (metis nth_Cons_0 zero_less_Suc)
    from Suc Cons.prems have 1: "j' < length fs" and 2: "\<not> callable (fs ! j')" by simp_all
    have 3: "\<forall>l<j'. callable (fs ! l)"
    proof (intro allI impI)
      fix l assume "l < j'"
      then have "Suc l < j" using Suc by simp
      with Cons.prems(3) have "callable ((f # fs) ! Suc l)" by (simp only:)
      then show "callable (fs ! l)" by simp
    qed
    from Cons.IH [OF 1 2 3, of "Suc i"] c Suc show ?thesis by simp
  qed
qed

lemma setattr_items_slots:
  "set (map fst items) \<subseteq> set slots \<Longrightarrow> distinct (map fst items) \<Longrightarrow>
   \<exists>obj. setattr_items self items = (obj, None) \<and>
     (\<forall>name. slot obj name = (case map_of items name of None \<Rightarrow> slot self name | Some v \<Rightarrow> Some v))"
proof (induction items arbitrary: self)
  case Nil
  then show ?case by simp
next
  case (Cons kv items)
  obtain key val where kv: "kv = (key, val)" by (cases kv)
  from Cons.prems kv have "key \<in> set slots" by simp
  from setattr_slots [OF this, of self val] obtain self' where s: "setattr self key val = Inr self'" ..
  from Cons.prems have "set (map fst items) \<subseteq> set slots" "distinct (map fst items)" by simp_all
  from Cons.IH [OF this, of self'] obtain obj where
    o: "setattr_items self' items = (obj, None)"
    "\<forall>name. slot obj name = (case map_of items name of None \<Rightarrow> slot self' name | Some v \<Rightarrow> Some v)"
    by (elim exE conjE)
  from Cons.prems kv have notin: "map_of items key = None"
    by (simp add: map_of_eq_None_iff)
  have "slot obj name = (case map_of (kv # items) name of None \<Rightarrow> slot self name | Some v \<Rightarrow> Some v)" for name
    using o(2) slot_setattr [OF s, of name] notin kv
    by (cases "name = key") (auto split: option.splits)
  with o(1) s kv show ?case by simp
qed

lemma setattr_items_data_weight:
  "''data_weight'' \<notin> set (map fst items) \<Longrightarrow>
   setattr_items (self\<lparr>data_weight := x\<rparr>) items =
     map_prod (\<lambda>obj. obj\<lparr>data_weight := x\<rparr>) id (setattr_items self items)"
proof (induction items arbitrary: self)
  case Nil
  then show ?case by simp
next
  case (Cons kv items)
  obtain key val where kv: "kv = (key, val)" by (cases kv)
  from Cons.prems kv have "''data_weight'' \<noteq> key" by simp
  then have k: "key \<noteq> ''data_weight''" by (rule not_sym)
  from Cons.prems have n: "''data_weight'' \<notin> set (map fst items)" by simp
  have s: "setattr (self\<lparr>data_weight := x\<rparr>) key val =
           map_sum id (\<lambda>obj. obj\<lparr>data_weight := x\<rparr>) (setattr self key val)"
    using k by (simp add: setattr_def)
  show ?case
  proof (cases "setattr self key val")
    case (Inl e)
    with s kv show ?thesis by simp
  next
    case (Inr self')
    with s kv Cons.IH [OF n, of self'] show ?thesis by simp
  qed
qed

section \<open>The key-set test\<close>

lemma keys_pop_data_weight:
  "set (map fst (AList.delete ''data_weight'' kwargs)) = keyset kwargs"
  unfolding keyset_def AList.delete_keys by simp

lemma sort_eq_imp_set_eq: "sort ks = sort ks' \<Longrightarrow> set ks = set ks'"
  by (metis set_sort)

lemma sort_pair_iff:
  assumes "a \<noteq> b"
  shows "sort ks = sort [a, b] \<longleftrightarrow> distinct ks \<and> set ks = {a, b}"
proof
  assume e: "sort ks = sort [a, b]"
  have "distinct (sort [a, b])" using assms by (simp only: distinct_sort) simp
  then have "distinct (sort ks)" by (simp only: e)
  then have "distinct ks" by (simp only: distinct_sort)
  moreover have "set ks = {a, b}" using sort_eq_imp_set_eq [OF e] by simp
  ultimately show "distinct ks \<and> set ks = {a, b}" by simp
next
  assume h: "distinct ks \<and> set ks = {a, b}"
  show "sort ks = sort [a, b]"
  proof (rule sorted_distinct_set_unique)
    show "distinct (sort ks)" using h by simp
    show "distinct (sort [a, b])" using assms by (simp only: distinct_sort) simp
    show "set (sort ks) = set (sort [a, b])" using h by (simp only: set_sort) simp
  qed (simp_all only: sorted_sort)
qed

lemma three_way: "(\<not> (D \<and> A) \<and> \<not> (D \<and> B) \<and> \<not> (D \<and> C)) \<longleftrightarrow> \<not> (D \<and> (A \<or> B \<or> C))"
  by blast

lemma valid_keysets_iff:
  "S \<in> valid_keysets \<longleftrightarrow>
     S = {''input_points'', ''output_points''} \<or> S = {''location'', ''function''} \<or>
     S = {''input_points'', ''function''}"
  unfolding valid_keysets_def by (simp only: insert_iff empty_iff simp_thms)

lemma key_test:
  "(sort ks \<noteq> sort [''input_points'', ''output_points''] \<and>
    sort ks \<noteq> sort [''location'', ''function''] \<and>
    sort ks \<noteq> sort [''input_points'', ''function'']) \<longleftrightarrow>
   \<not> (distinct ks \<and> set ks \<in> valid_keysets)"
proof -
  have 1: "sort ks = sort [''input_points'', ''output_points''] \<longleftrightarrow>
           distinct ks \<and> set ks = {''input_points'', ''output_points''}"
    by (rule sort_pair_iff) simp
  have 2: "sort ks = sort [''location'', ''function''] \<longleftrightarrow>
           distinct ks \<and> set ks = {''location'', ''function''}"
    by (rule sort_pair_iff) simp
  have 3: "sort ks = sort [''input_points'', ''function''] \<longleftrightarrow>
           distinct ks \<and> set ks = {''input_points'', ''function''}"
    by (rule sort_pair_iff) simp
  show ?thesis
    by (simp only: 1 2 3 valid_keysets_iff three_way)
qed

lemma valid_keysets_slots: "S \<in> valid_keysets \<Longrightarrow> S \<subseteq> set slots"
  unfolding valid_keysets_iff slots_def
  by (elim disjE) simp_all

lemma distinct_pop: "distinct (map fst kwargs) \<Longrightarrow> distinct (map fst (AList.delete k kwargs))"
  by (rule AList.distinct_delete)

section \<open>The function block\<close>

lemma check_function_absent:
  "map_of kwargs ''function'' = None \<Longrightarrow> check_function kwargs = Inr kwargs"
  by (simp add: check_function_def)

lemma check_function_present:
  "map_of kwargs ''function'' = Some f \<Longrightarrow>
   check_function kwargs =
     (case check_callable 0 (case f of PyList fs \<Rightarrow> fs | _ \<Rightarrow> [f]) of
        Some e \<Rightarrow> Inl e
      | None \<Rightarrow> Inr (if isinstance_list f then kwargs
                     else AList.update ''function'' (PyList [f]) kwargs))"
  by (simp add: check_function_def Let_def split: option.splits)

lemma check_function_Inr:
  assumes "check_function kwargs = Inr kwargs'"
  shows "map fst kwargs' = map fst kwargs \<and>
         (\<forall>name. map_of kwargs' name =
            (if name = ''function''
             then map_option (\<lambda>f. if isinstance_list f then f else PyList [f])
                    (map_of kwargs ''function'')
             else map_of kwargs name)) \<and>
         (\<forall>f. map_of kwargs ''function'' = Some f \<longrightarrow>
            list_all callable (case f of PyList fs \<Rightarrow> fs | _ \<Rightarrow> [f]))"
proof (cases "map_of kwargs ''function''")
  case None
  with assms check_function_absent [OF None] show ?thesis by simp
next
  case (Some f)
  let ?funcs = "case f of PyList fs \<Rightarrow> fs | _ \<Rightarrow> [f]"
  from assms check_function_present [OF Some]
  have c: "check_callable 0 ?funcs = None"
    and k: "kwargs' = (if isinstance_list f then kwargs
                       else AList.update ''function'' (PyList [f]) kwargs)"
    by (auto split: option.splits if_splits)
  from Some have "''function'' \<in> fst ` set kwargs"
    by (metis map_of_eq_None_iff option.distinct(1))
  then have keys: "map fst kwargs' = map fst kwargs"
    using k by (simp add: AList.update_keys)
  have m: "map_of kwargs' name =
            (if name = ''function''
             then map_option (\<lambda>f. if isinstance_list f then f else PyList [f])
                    (map_of kwargs ''function'')
             else map_of kwargs name)" for name
    using k Some by (simp add: AList.update_conv')
  from c have "list_all callable ?funcs" by (simp only: check_callable_None)
  with keys m Some show ?thesis by simp
qed

section \<open>The constructor\<close>

lemma init_positional:
  "args \<noteq> [] \<Longrightarrow> \<exists>self'. init self args kwargs = (self', Some (ValueError positional_message))"
  by (simp add: init_def Let_def)

lemma init_keywords:
  "init self [] kwargs =
    (let self1 = self\<lparr>data_weight :=
                   Some (case map_of kwargs ''data_weight'' of None \<Rightarrow> PyFloat 1 | Some w \<Rightarrow> w)\<rparr>;
         kw = AList.delete ''data_weight'' kwargs
     in if \<not> (distinct (map fst kw) \<and> set (map fst kw) \<in> valid_keysets)
        then (self1, Some (ValueError (invalid_keywords_message (map fst kw))))
        else if \<not> dictvalue_isinstance kw ''input_points'' LabelTensor
          then (self1, Some (TypeError ''`input_points` must be a torch.Tensor.''))
        else if \<not> dictvalue_isinstance kw ''output_points'' LabelTensor
          then (self1, Some (TypeError ''`output_points` must be a torch.Tensor.''))
        else if \<not> dictvalue_isinstance kw ''location'' Location
          then (self1, Some (TypeError ''`location` must be a Location.''))
        else (case check_function kw of
                Inl e \<Rightarrow> (self1, Some e)
              | Inr kw' \<Rightarrow> setattr_items self1 kw'))"
  unfolding init_def Let_def key_test [symmetric]
  by (simp only: list.size if_False simp_thms)

lemma init_None:
  assumes "init self args kwargs = (obj, None)"
  defines "kw \<equiv> AList.delete ''data_weight'' kwargs"
  defines "self1 \<equiv> self\<lparr>data_weight :=
                   Some (case map_of kwargs ''data_weight'' of None \<Rightarrow> PyFloat 1 | Some w \<Rightarrow> w)\<rparr>"
  shows "args = []"
    and "distinct (map fst kw)"
    and "set (map fst kw) \<in> valid_keysets"
    and "dictvalue_isinstance kw ''input_points'' LabelTensor"
    and "dictvalue_isinstance kw ''output_points'' LabelTensor"
    and "dictvalue_isinstance kw ''location'' Location"
    and "\<exists>kw'. check_function kw = Inr kw' \<and> setattr_items self1 kw' = (obj, None)"
proof -
  show a: "args = []"
    using assms(1) init_positional [of args self kwargs] by (cases "args = []") auto
  note i = assms(1) [unfolded a init_keywords Let_def, folded kw_def self1_def]
  show d: "distinct (map fst kw)"
    by (rule ccontr) (use i in simp)
  show v: "set (map fst kw) \<in> valid_keysets"
    by (rule ccontr) (use i in simp)
  show 1: "dictvalue_isinstance kw ''input_points'' LabelTensor"
    by (rule ccontr) (use i d v in simp)
  show 2: "dictvalue_isinstance kw ''output_points'' LabelTensor"
    by (rule ccontr) (use i d v 1 in simp)
  show 3: "dictvalue_isinstance kw ''location'' Location"
    by (rule ccontr) (use i d v 1 2 in simp)
  from i d v 1 2 3 show "\<exists>kw'. check_function kw = Inr kw' \<and> setattr_items self1 kw' = (obj, None)"
    by (cases "check_function kw") simp_all
qed

lemma Condition_call_bound:
  "''self'' \<notin> set (map fst kwargs) \<Longrightarrow>
   Condition_call args kwargs =
     (case init new_Condition args kwargs of
        (self, None) \<Rightarrow> Inr self
      | (self, Some e) \<Rightarrow> Inl e)"
  by (simp add: Condition_call_def)

lemma Condition_call_InrD:
  assumes "Condition_call args kwargs = Inr obj"
  shows "''self'' \<notin> set (map fst kwargs)" and "init new_Condition args kwargs = (obj, None)"
proof -
  show n: "''self'' \<notin> set (map fst kwargs)"
    by (rule ccontr) (use assms in \<open>simp add: Condition_call_def\<close>)
  from assms show "init new_Condition args kwargs = (obj, None)"
    unfolding Condition_call_bound [OF n]
    by (cases "init new_Condition args kwargs") (simp split: option.splits)
qed

lemma Condition_call_InrI:
  "''self'' \<notin> set (map fst kwargs) \<Longrightarrow> init new_Condition args kwargs = (obj, None) \<Longrightarrow>
   Condition_call args kwargs = Inr obj"
  by (simp add: Condition_call_bound)

lemma valid_no_self:
  assumes "keyset kwargs \<in> valid_keysets"
  shows "''self'' \<notin> set (map fst kwargs)"
proof
  assume "''self'' \<in> set (map fst kwargs)"
  then have "''self'' \<in> keyset kwargs" by (simp add: keyset_def)
  with valid_keysets_slots [OF assms] have "''self'' \<in> set slots" by (rule subsetD)
  then show False by (simp add: slots_def)
qed

text \<open>What a successful call has stored in each slot.\<close>

lemma call_slots:
  assumes c: "Condition_call args kwargs = Inr obj"
  shows "slot obj name =
    (if name = ''data_weight''
     then Some (case map_of kwargs ''data_weight'' of None \<Rightarrow> PyFloat 1 | Some w \<Rightarrow> w)
     else if name = ''function''
     then map_option (\<lambda>f. if isinstance_list f then f else PyList [f]) (map_of kwargs ''function'')
     else map_of kwargs name)"
proof -
  let ?kw = "AList.delete ''data_weight'' kwargs"
  let ?self1 = "new_Condition\<lparr>data_weight :=
                   Some (case map_of kwargs ''data_weight'' of None \<Rightarrow> PyFloat 1 | Some w \<Rightarrow> w)\<rparr>"
  from c have i: "init new_Condition args kwargs = (obj, None)"
    by (rule Condition_call_InrD)
  from init_None(7) [OF i] obtain kw' where
    cf: "check_function ?kw = Inr kw'" and sa: "setattr_items ?self1 kw' = (obj, None)"
    by (elim exE conjE)
  note f = check_function_Inr [OF cf]
  from f have keys: "map fst kw' = map fst ?kw" by (rule conjunct1)
  from f have m: "map_of kw' n =
            (if n = ''function''
             then map_option (\<lambda>f. if isinstance_list f then f else PyList [f])
                    (map_of ?kw ''function'')
             else map_of ?kw n)" for n
    by (elim conjE allE)
  have d: "distinct (map fst kw')" using init_None(2) [OF i] keys by simp
  have s: "set (map fst kw') \<subseteq> set slots"
    using valid_keysets_slots [OF init_None(3) [OF i]] keys by simp
  from setattr_items_slots [OF s d, of ?self1] sa
  have sl: "slot obj n = (case map_of kw' n of None \<Rightarrow> slot ?self1 n | Some v \<Rightarrow> Some v)" for n
    by simp
  have none: "map_of ?kw n = None \<Longrightarrow> n \<noteq> ''data_weight'' \<Longrightarrow> slot ?self1 n = None" for n
    by (simp add: slot_data_weight_update slot_new_Condition)
  show ?thesis
  proof (cases "name = ''data_weight''")
    case True
    have "map_of kw' ''data_weight'' = None"
      using m [of "''data_weight''"] by (simp add: AList.delete_conv')
    with True sl [of name] show ?thesis by (simp add: slot_data_weight_update)
  next
    case False
    then have p: "map_of ?kw name = map_of kwargs name" by simp
    have pf: "map_of ?kw ''function'' = map_of kwargs ''function''" by simp
    show ?thesis
    proof (cases "name = ''function''")
      case True
      with False sl [of name] m [of name] pf none [of name] show ?thesis
        by (cases "map_of kwargs ''function''") simp_all
    next
      case nf: False
      with False sl [of name] m [of name] p none [of name] show ?thesis
        by (cases "map_of kwargs name") simp_all
    qed
  qed
qed

lemma call_valid:
  assumes c: "Condition_call args kwargs = Inr obj"
  shows "args = []" and "distinct (map fst (AList.delete ''data_weight'' kwargs))"
    and "keyset kwargs \<in> valid_keysets"
  using init_None(1-3) [OF Condition_call_InrD(2) [OF c]]
  by (simp_all only: keys_pop_data_weight)

lemma dictvalue_isinstance_pop:
  "key \<noteq> ''data_weight'' \<Longrightarrow>
   dictvalue_isinstance (AList.delete ''data_weight'' kwargs) key cls =
   dictvalue_isinstance kwargs key cls"
  by (simp add: dictvalue_isinstance_def)

lemma getattr_slot:
  "getattr obj name = (case slot obj name of None \<Rightarrow> Inl (AttributeError name) | Some v \<Rightarrow> Inr v)"
  by (simp add: getattr_def)

lemma call_populated:
  assumes c: "Condition_call args kwargs = Inr obj"
  shows "populated obj = keyset kwargs \<union> {''data_weight''}"
proof (rule set_eqI)
  fix name
  note v = call_valid(3) [OF c]
  have sub: "keyset kwargs \<subseteq> set slots" by (rule valid_keysets_slots [OF v])
  have dw: "''data_weight'' \<in> set slots" by (simp add: slots_def)
  show "name \<in> populated obj \<longleftrightarrow> name \<in> keyset kwargs \<union> {''data_weight''}"
  proof (cases "name = ''data_weight''")
    case True
    with call_slots [OF c, of name] dw show ?thesis by (simp add: populated_def)
  next
    case False
    then have k: "name \<in> keyset kwargs \<longleftrightarrow> map_of kwargs name \<noteq> None"
      by (simp add: keyset_def map_of_eq_None_iff)
    have s: "slot obj name \<noteq> None \<longleftrightarrow> map_of kwargs name \<noteq> None"
      using call_slots [OF c, of name] False by (cases "name = ''function''") auto
    from k s sub False show ?thesis
      unfolding populated_def by (simp add: subset_iff) metis
  qed
qed

lemma call_succeeds:
  assumes d: "distinct (map fst kwargs)" and v: "keyset kwargs \<in> valid_keysets"
    and i: "dictvalue_isinstance kwargs ''input_points'' LabelTensor"
    and o: "dictvalue_isinstance kwargs ''output_points'' LabelTensor"
    and l: "dictvalue_isinstance kwargs ''location'' Location"
    and f: "\<forall>f. map_of kwargs ''function'' = Some f \<longrightarrow>
              list_all callable (case f of PyList fs \<Rightarrow> fs | _ \<Rightarrow> [f])"
  shows "\<exists>obj. Condition_call [] kwargs = Inr obj"
proof -
  let ?kw = "AList.delete ''data_weight'' kwargs"
  let ?self1 = "new_Condition\<lparr>data_weight :=
                   Some (case map_of kwargs ''data_weight'' of None \<Rightarrow> PyFloat 1 | Some w \<Rightarrow> w)\<rparr>"
  have d': "distinct (map fst ?kw)" using d by (rule distinct_pop)
  have v': "set (map fst ?kw) \<in> valid_keysets" using v by (simp only: keys_pop_data_weight)
  have i': "dictvalue_isinstance ?kw ''input_points'' LabelTensor"
    using i by (simp add: dictvalue_isinstance_pop)
  have o': "dictvalue_isinstance ?kw ''output_points'' LabelTensor"
    using o by (simp add: dictvalue_isinstance_pop)
  have l': "dictvalue_isinstance ?kw ''location'' Location"
    using l by (simp add: dictvalue_isinstance_pop)
  have "\<exists>kw'. check_function ?kw = Inr kw'"
  proof (cases "map_of ?kw ''function''")
    case None
    from check_function_absent [OF None] show ?thesis by simp
  next
    case (Some g)
    then have "map_of kwargs ''function'' = Some g" by simp
    with f have "list_all callable (case g of PyList fs \<Rightarrow> fs | _ \<Rightarrow> [g])" by simp
    then have "check_callable 0 (case g of PyList fs \<Rightarrow> fs | _ \<Rightarrow> [g]) = None"
      by (simp only: check_callable_None)
    with check_function_present [OF Some] show ?thesis by simp
  qed
  then obtain kw' where cf: "check_function ?kw = Inr kw'" ..
  from check_function_Inr [OF cf] have keys: "map fst kw' = map fst ?kw" by (rule conjunct1)
  have "set (map fst kw') \<subseteq> set slots" "distinct (map fst kw')"
    using valid_keysets_slots [OF v'] d' keys by simp_all
  from setattr_items_slots [OF this, of ?self1] obtain obj where
    "setattr_items ?self1 kw' = (obj, None)" by (elim exE conjE)
  with d' v' i' o' l' cf have "init new_Condition [] kwargs = (obj, None)"
    by (simp add: init_keywords Let_def)
  with valid_no_self [OF v] have "Condition_call [] kwargs = Inr obj"
    by (rule Condition_call_InrI)
  then show ?thesis ..
qed

lemma popped_checks:
  assumes "distinct (map fst kwargs)" and "keyset kwargs \<in> valid_keysets"
  shows "distinct (map fst (AList.delete ''data_weight'' kwargs)) \<and>
         set (map fst (AList.delete ''data_weight'' kwargs)) \<in> valid_keysets"
  using assms distinct_pop [of kwargs] by (simp only: keys_pop_data_weight simp_thms)

lemma init_update_data_weight:
  "init self args (AList.update ''data_weight'' w kwargs) =
     map_prod (\<lambda>obj. obj\<lparr>data_weight := Some w\<rparr>) id (init self args kwargs)"
proof (cases "args = []")
  case False
  then show ?thesis by (simp add: init_def Let_def AList.update_conv')
next
  case True
  let ?kw = "AList.delete ''data_weight'' kwargs"
  let ?w0 = "Some (case map_of kwargs ''data_weight'' of None \<Rightarrow> PyFloat 1 | Some w \<Rightarrow> w)"
  have del: "AList.delete ''data_weight'' (AList.update ''data_weight'' w kwargs) = ?kw"
    by (rule AList.delete_update_same)
  have look: "map_of (AList.update ''data_weight'' w kwargs) ''data_weight'' = Some w"
    by (simp add: AList.update_conv')
  show ?thesis
  proof (cases "check_function ?kw")
    case (Inl e)
    with True show ?thesis by (simp add: init_keywords Let_def del look)
  next
    case (Inr kw')
    from check_function_Inr [OF Inr] have "map fst kw' = map fst ?kw" by (rule conjunct1)
    then have n: "''data_weight'' \<notin> set (map fst kw')"
      using AList.delete_notin_dom [of "''data_weight''" kwargs] by simp
    have "setattr_items (self\<lparr>data_weight := Some w\<rparr>) kw' =
          map_prod (\<lambda>obj. obj\<lparr>data_weight := Some w\<rparr>) id
            (setattr_items (self\<lparr>data_weight := ?w0\<rparr>) kw')"
      unfolding setattr_items_data_weight [OF n]
      by (cases "setattr_items self kw'") simp
    with True Inr show ?thesis by (simp add: init_keywords Let_def del look)
  qed
qed

section \<open>The store\<close>

lemma cell_at_append_lt: "a < length h \<Longrightarrow> cell_at (h @ xs) a = cell_at h a"
  by (simp add: cell_at_def nth_append)

lemma cell_at_append_ge: "length h \<le> a \<Longrightarrow> cell_at (h @ xs) a = cell_at xs (a - length h)"
  by (auto simp: cell_at_def nth_append)

lemma cell_at_length: "cell_at (h @ c # xs) (length h) = Some c"
  by (simp add: cell_at_def nth_append)

lemma cell_at_Some_lt: "cell_at h a = Some c \<Longrightarrow> a < length h"
  by (simp add: cell_at_def split: if_splits)

lemma cell_at_snoc:
  "cell_at (h @ [c]) a = (if a = length h then Some c else cell_at h a)"
  by (auto simp: cell_at_def nth_append)

text \<open>A new list or instance changes no test but the list test at its own address.\<close>

lemma isinstance_ref_snoc_Condition [simp]:
  "isinstance_ref (h @ [ConditionCell x]) a cls = isinstance_ref h a cls"
  by (simp add: isinstance_ref_def cell_at_snoc) (simp add: cell_at_def)

lemma isinstance_ref_snoc_List [simp]:
  "isinstance_ref (h @ [ListCell x]) a cls = isinstance_ref h a cls"
  by (simp add: isinstance_ref_def cell_at_snoc) (simp add: cell_at_def)

lemma callable_ref_snoc_Condition [simp]:
  "callable_ref (h @ [ConditionCell x]) a = callable_ref h a"
  by (simp add: callable_ref_def cell_at_snoc) (simp add: cell_at_def)

lemma callable_ref_snoc_List [simp]:
  "callable_ref (h @ [ListCell x]) a = callable_ref h a"
  by (simp add: callable_ref_def cell_at_snoc) (simp add: cell_at_def)

lemma isinstance_list_ref_snoc_Condition [simp]:
  "isinstance_list_ref (h @ [ConditionCell x]) a = isinstance_list_ref h a"
  by (simp add: isinstance_list_ref_def cell_at_snoc) (simp add: cell_at_def)

lemma callable_ref_lt: "callable_ref h a \<Longrightarrow> a < length h"
  by (simp add: callable_ref_def cell_at_def split: if_splits)

lemma isinstance_list_ref_lt: "isinstance_list_ref h a \<Longrightarrow> a < length h"
  by (simp add: isinstance_list_ref_def cell_at_def split: if_splits)

lemma callable_ref_not_list: "callable_ref h a \<Longrightarrow> \<not> isinstance_list_ref h a"
  by (simp add: callable_ref_def isinstance_list_ref_def split: option.splits cell.splits)

lemma dictvalue_isinstance_ref_snoc_Condition [simp]:
  "dictvalue_isinstance_ref (h @ [ConditionCell x]) dict key cls =
   dictvalue_isinstance_ref h dict key cls"
  by (simp add: dictvalue_isinstance_ref_def split: option.splits)

lemma dictvalue_isinstance_ref_snoc_List [simp]:
  "dictvalue_isinstance_ref (h @ [ListCell x]) dict key cls =
   dictvalue_isinstance_ref h dict key cls"
  by (simp add: dictvalue_isinstance_ref_def split: option.splits)

lemma check_callable_ref_cong:
  "(\<And>a. callable_ref k a = callable_ref h a) \<Longrightarrow>
   check_callable_ref k i funcs = check_callable_ref h i funcs"
  by (induction funcs arbitrary: i) simp_all

lemma check_callable_ref_None:
  "check_callable_ref h i funcs = None \<longleftrightarrow> list_all (callable_ref h) funcs"
  by (induction funcs arbitrary: i) simp_all

section \<open>Assignment of the slots\<close>

lemma update_fresh: "k \<notin> fst ` set al \<Longrightarrow> AList.update k v al = al @ [(k, v)]"
  by (induction al) auto

lemma fold_update_append:
  "distinct (map fst items) \<Longrightarrow> set (map fst items) \<inter> set (map fst attrs) = {} \<Longrightarrow>
   fold (\<lambda>(k, a). AList.update k a) items attrs = attrs @ items"
proof (induction items arbitrary: attrs)
  case Nil
  then show ?case by simp
next
  case (Cons kv items)
  obtain k a where kv: "kv = (k, a)" by (cases kv)
  from Cons.prems kv have "k \<notin> fst ` set attrs" by auto
  then have u: "AList.update k a attrs = attrs @ [(k, a)]" by (rule update_fresh)
  from Cons.prems kv have "distinct (map fst items)"
    "set (map fst items) \<inter> set (map fst (attrs @ [(k, a)])) = {}" by auto
  from Cons.IH [OF this] u kv show ?case by simp
qed

lemma setattr_ref_slot:
  "key \<in> set slots \<Longrightarrow>
   setattr_ref (g @ ConditionCell attrs # ws) (length g) key a =
     Inr (g @ ConditionCell (AList.update key a attrs) # ws)"
  by (simp add: setattr_ref_def cell_at_length)

lemma setattr_items_ref_closed:
  "set (map fst items) \<subseteq> set slots \<Longrightarrow>
   setattr_items_ref (g @ ConditionCell attrs # ws) (length g) items =
     (g @ ConditionCell (fold (\<lambda>(k, a). AList.update k a) items attrs) # ws, None)"
proof (induction items arbitrary: attrs)
  case Nil
  then show ?case by simp
next
  case (Cons kv items)
  obtain k a where kv: "kv = (k, a)" by (cases kv)
  from Cons.prems kv have k: "k \<in> set slots" and r: "set (map fst items) \<subseteq> set slots"
    by simp_all
  from setattr_ref_slot [OF k, of g attrs ws a] Cons.IH [OF r, of "AList.update k a attrs"] kv
  show ?case by simp
qed

section \<open>A call, step by step\<close>

lemma init_ref_positional:
  "args \<noteq> [] \<Longrightarrow>
   snd (init_ref (g @ [ConditionCell []]) (length g) args kwargs) =
     Some (ValueError positional_message)"
proof -
  have d: "''data_weight'' \<in> set slots" by (simp add: slots_def)
  assume "args \<noteq> []"
  with setattr_ref_slot [OF d, of g "[]" "[]"] show ?thesis
    by (simp add: init_ref_def Let_def)
qed

lemma init_ref_keywords:
  "init_ref (g @ [ConditionCell []]) (length g) [] kwargs =
    (let w = (case map_of kwargs ''data_weight'' of None \<Rightarrow> float_one | Some a \<Rightarrow> a);
         kw = AList.delete ''data_weight'' kwargs;
         k1 = g @ [ConditionCell [(''data_weight'', w)]]
     in if \<not> (distinct (map fst kw) \<and> set (map fst kw) \<in> valid_keysets)
        then (k1, Some (ValueError (invalid_keywords_message (map fst kw))))
        else if \<not> dictvalue_isinstance_ref g kw ''input_points'' LabelTensor
          then (k1, Some (TypeError ''`input_points` must be a torch.Tensor.''))
        else if \<not> dictvalue_isinstance_ref g kw ''output_points'' LabelTensor
          then (k1, Some (TypeError ''`output_points` must be a torch.Tensor.''))
        else if \<not> dictvalue_isinstance_ref g kw ''location'' Location
          then (k1, Some (TypeError ''`location` must be a Location.''))
        else (case check_function_ref k1 kw of
                (h', Inl e) \<Rightarrow> (h', Some e)
              | (h', Inr kw') \<Rightarrow> setattr_items_ref h' (length g) kw'))"
proof -
  have d: "''data_weight'' \<in> set slots" by (simp add: slots_def)
  show ?thesis
    unfolding init_ref_def Let_def key_test [symmetric]
    using setattr_ref_slot [OF d, of g "[]" "[]"]
    by (simp only: list.size if_False simp_thms) simp
qed

lemma elements_snoc_Condition:
  "(case cell_at (g @ [ConditionCell A]) f of Some (ListCell es) \<Rightarrow> es | _ \<Rightarrow> [f]) =
   (case cell_at g f of Some (ListCell es) \<Rightarrow> es | _ \<Rightarrow> [f])"
  by (simp add: cell_at_snoc) (simp add: cell_at_def)

lemma check_function_ref_run:
  "check_function_ref (g @ [ConditionCell A]) kw =
    (case map_of kw ''function'' of
       None \<Rightarrow> (g @ [ConditionCell A], Inr kw)
     | Some f \<Rightarrow>
        (case check_callable_ref g 0 (case cell_at g f of Some (ListCell es) \<Rightarrow> es | _ \<Rightarrow> [f]) of
           Some e \<Rightarrow>
             (if isinstance_list_ref g f then g @ [ConditionCell A]
              else g @ [ConditionCell A, ListCell [f]], Inl e)
         | None \<Rightarrow>
             (if isinstance_list_ref g f then (g @ [ConditionCell A], Inr kw)
              else (g @ [ConditionCell A, ListCell [f]],
                    Inr (AList.update ''function'' (Suc (length g)) kw)))))"
proof (cases "map_of kw ''function''")
  case None
  then show ?thesis by (simp add: check_function_ref_def)
next
  case (Some f)
  let ?funcs = "case cell_at g f of Some (ListCell es) \<Rightarrow> es | _ \<Rightarrow> [f]"
  have c1: "check_callable_ref (g @ [ConditionCell A]) 0 ?funcs = check_callable_ref g 0 ?funcs"
    by (rule check_callable_ref_cong) simp
  have "callable_ref (g @ [ConditionCell A, ListCell [f]]) a = callable_ref g a" for a
    using callable_ref_snoc_List [of "g @ [ConditionCell A]" "[f]" a] by simp
  then have c2: "check_callable_ref (g @ [ConditionCell A, ListCell [f]]) 0 ?funcs =
        check_callable_ref g 0 ?funcs"
    by (rule check_callable_ref_cong)
  show ?thesis
  proof (cases "isinstance_list_ref g f")
    case True
    with Some c1 show ?thesis
      by (simp add: check_function_ref_def Let_def elements_snoc_Condition
            split: option.splits)
  next
    case False
    with Some c2 show ?thesis
      by (simp add: check_function_ref_def Let_def alloc_def elements_snoc_Condition
            split: option.splits)
  qed
qed

text \<open>The outcome of a call that passes every test.\<close>

lemma Condition_call_ref_accepts:
  fixes kwargs :: kwargs_ref
  defines "w \<equiv> (case map_of kwargs ''data_weight'' of None \<Rightarrow> float_one | Some a \<Rightarrow> a)"
  defines "kw \<equiv> AList.delete ''data_weight'' kwargs"
  assumes n: "''self'' \<notin> set (map fst kwargs)"
    and d: "distinct (map fst kw)" and v: "set (map fst kw) \<in> valid_keysets"
    and i: "dictvalue_isinstance_ref g kw ''input_points'' LabelTensor"
    and o: "dictvalue_isinstance_ref g kw ''output_points'' LabelTensor"
    and l: "dictvalue_isinstance_ref g kw ''location'' Location"
    and f: "\<forall>f. map_of kw ''function'' = Some f \<longrightarrow>
              list_all (callable_ref g) (case cell_at g f of Some (ListCell es) \<Rightarrow> es | _ \<Rightarrow> [f])"
  shows "Condition_call_ref g [] kwargs =
    (case map_of kw ''function'' of
       None \<Rightarrow> (g @ [ConditionCell ((''data_weight'', w) # kw)], Inr (length g))
     | Some f \<Rightarrow>
         if isinstance_list_ref g f
         then (g @ [ConditionCell ((''data_weight'', w) # kw)], Inr (length g))
         else (g @ [ConditionCell ((''data_weight'', w) #
                                  AList.update ''function'' (Suc (length g)) kw),
                    ListCell [f]], Inr (length g)))"
proof -
  have s: "set (map fst kw) \<subseteq> set slots" by (rule valid_keysets_slots [OF v])
  have nd: "''data_weight'' \<notin> set (map fst kw)"
    unfolding kw_def using AList.delete_notin_dom [of "''data_weight''" kwargs] by simp
  have closed: "setattr_items_ref (g @ ConditionCell [(''data_weight'', w)] # ws) (length g) items =
      (g @ ConditionCell ((''data_weight'', w) # items) # ws, None)"
    if "set (map fst items) = set (map fst kw)" "distinct (map fst items)" for items ws
  proof -
    from that(1) s have 1: "set (map fst items) \<subseteq> set slots" by simp
    from that(1) nd have 2: "set (map fst items) \<inter> set (map fst [(''data_weight'', w)]) = {}"
      by simp
    from setattr_items_ref_closed [OF 1, of g "[(''data_weight'', w)]" ws]
      fold_update_append [OF that(2) 2]
    show ?thesis by simp
  qed
  note k = init_ref_keywords [of g kwargs, unfolded Let_def, folded w_def kw_def]
  show ?thesis
  proof (cases "map_of kw ''function''")
    case None
    with check_function_ref_run [of g "[(''data_weight'', w)]" kw]
    have "check_function_ref (g @ [ConditionCell [(''data_weight'', w)]]) kw =
            (g @ [ConditionCell [(''data_weight'', w)]], Inr kw)" by simp
    with k d v i o l closed [of kw "[]", OF refl d] None n show ?thesis
      by (simp add: Condition_call_ref_def alloc_def)
  next
    case (Some fn)
    with f have "check_callable_ref g 0 (case cell_at g fn of Some (ListCell es) \<Rightarrow> es | _ \<Rightarrow> [fn]) = None"
      by (simp add: check_callable_ref_None)
    with check_function_ref_run [of g "[(''data_weight'', w)]" kw] Some
    have c: "check_function_ref (g @ [ConditionCell [(''data_weight'', w)]]) kw =
            (if isinstance_list_ref g fn then (g @ [ConditionCell [(''data_weight'', w)]], Inr kw)
              else (g @ [ConditionCell [(''data_weight'', w)], ListCell [fn]],
                    Inr (AList.update ''function'' (Suc (length g)) kw)))" by simp
    show ?thesis
    proof (cases "isinstance_list_ref g fn")
      case True
      with k d v i o l c closed [of kw "[]", OF refl d] Some n show ?thesis
        by (simp add: Condition_call_ref_def alloc_def)
    next
      case False
      from Some have "''function'' \<in> fst ` set kw"
        by (metis map_of_eq_None_iff option.distinct(1))
      then have keys: "map fst (AList.update ''function'' (Suc (length g)) kw) = map fst kw"
        by (simp add: AList.update_keys)
      then have "set (map fst (AList.update ''function'' (Suc (length g)) kw)) = set (map fst kw)"
        "distinct (map fst (AList.update ''function'' (Suc (length g)) kw))"
        using d by simp_all
      from closed [OF this, of "[ListCell [fn]]"] k d v i o l c Some n False show ?thesis
        by (simp add: Condition_call_ref_def alloc_def)
    qed
  qed
qed

text \<open>What a call that returns an object has passed.\<close>

lemma Condition_call_ref_Inr:
  fixes kwargs :: kwargs_ref
  defines "kw \<equiv> AList.delete ''data_weight'' kwargs"
  assumes c: "Condition_call_ref g args kwargs = (g', Inr obj)"
  shows "args = []" and "''self'' \<notin> set (map fst kwargs)"
    and "distinct (map fst kw)" and "set (map fst kw) \<in> valid_keysets"
    and "dictvalue_isinstance_ref g kw ''input_points'' LabelTensor"
    and "dictvalue_isinstance_ref g kw ''output_points'' LabelTensor"
    and "dictvalue_isinstance_ref g kw ''location'' Location"
    and "\<forall>f. map_of kw ''function'' = Some f \<longrightarrow>
           list_all (callable_ref g) (case cell_at g f of Some (ListCell es) \<Rightarrow> es | _ \<Rightarrow> [f])"
proof -
  show n: "''self'' \<notin> set (map fst kwargs)"
    by (rule ccontr) (use c in \<open>simp add: Condition_call_ref_def alloc_def\<close>)
  from c n have r: "snd (init_ref (g @ [ConditionCell []]) (length g) args kwargs) = None"
    by (simp add: Condition_call_ref_def alloc_def split: prod.splits option.splits)
  show a: "args = []"
    by (rule ccontr) (use r init_ref_positional [of args g kwargs] in simp)
  note k = r [unfolded a init_ref_keywords Let_def, folded kw_def]
  show d: "distinct (map fst kw)"
    by (rule ccontr) (use k in simp)
  show v: "set (map fst kw) \<in> valid_keysets"
    by (rule ccontr) (use k in simp)
  show 1: "dictvalue_isinstance_ref g kw ''input_points'' LabelTensor"
    by (rule ccontr) (use k d v in simp)
  show 2: "dictvalue_isinstance_ref g kw ''output_points'' LabelTensor"
    by (rule ccontr) (use k d v 1 in simp)
  show 3: "dictvalue_isinstance_ref g kw ''location'' Location"
    by (rule ccontr) (use k d v 1 2 in simp)
  show "\<forall>f. map_of kw ''function'' = Some f \<longrightarrow>
           list_all (callable_ref g) (case cell_at g f of Some (ListCell es) \<Rightarrow> es | _ \<Rightarrow> [f])"
  proof (intro allI impI)
    fix f
    assume f: "map_of kw ''function'' = Some f"
    show "list_all (callable_ref g) (case cell_at g f of Some (ListCell es) \<Rightarrow> es | _ \<Rightarrow> [f])"
    proof (rule ccontr)
      assume "\<not> ?thesis"
      then have
        "check_callable_ref g 0 (case cell_at g f of Some (ListCell es) \<Rightarrow> es | _ \<Rightarrow> [f]) \<noteq> None"
        by (simp only: check_callable_ref_None not_False_eq_True)
      then obtain e where
        "check_callable_ref g 0 (case cell_at g f of Some (ListCell es) \<Rightarrow> es | _ \<Rightarrow> [f]) = Some e"
        by auto
      with k d v 1 2 3 f show False
        by (simp add: check_function_ref_run)
    qed
  qed
qed

section \<open>The same call on a larger store\<close>

lemma isinstance_ref_agree:
  assumes "\<forall>a<length h. cell_at g a = cell_at h a" and "isinstance_ref h a cls"
  shows "isinstance_ref g a cls"
proof -
  from assms(2) have "a < length h"
    by (simp add: isinstance_ref_def cell_at_def split: if_splits)
  with assms(1) have "cell_at g a = cell_at h a" by simp
  with assms(2) show ?thesis by (simp add: isinstance_ref_def)
qed

lemma dictvalue_isinstance_ref_agree:
  assumes "\<forall>a<length h. cell_at g a = cell_at h a"
    and "dictvalue_isinstance_ref h dict key cls"
  shows "dictvalue_isinstance_ref g dict key cls"
  using assms(2) isinstance_ref_agree [OF assms(1)]
  by (simp add: dictvalue_isinstance_ref_def split: option.splits)

lemma callable_ref_agree:
  assumes "\<forall>a<length h. cell_at g a = cell_at h a" and "callable_ref h a"
  shows "callable_ref g a"
proof -
  from assms(2) have "a < length h" by (rule callable_ref_lt)
  with assms(1) have "cell_at g a = cell_at h a" by simp
  with assms(2) show ?thesis by (simp add: callable_ref_def)
qed

lemma function_agree:
  assumes ag: "\<forall>a<length h. cell_at g a = cell_at h a"
    and c: "list_all (callable_ref h) (case cell_at h f of Some (ListCell es) \<Rightarrow> es | _ \<Rightarrow> [f])"
  shows "list_all (callable_ref g) (case cell_at g f of Some (ListCell es) \<Rightarrow> es | _ \<Rightarrow> [f])"
    and "isinstance_list_ref g f = isinstance_list_ref h f"
proof -
  have lt: "f < length h"
  proof (cases "isinstance_list_ref h f")
    case True
    then show ?thesis by (rule isinstance_list_ref_lt)
  next
    case False
    then have "(case cell_at h f of Some (ListCell es) \<Rightarrow> es | _ \<Rightarrow> [f]) = [f]"
      by (simp add: isinstance_list_ref_def split: option.splits cell.splits)
    with c have "callable_ref h f" by simp
    then show ?thesis by (rule callable_ref_lt)
  qed
  with ag have e: "cell_at g f = cell_at h f" by simp
  from c callable_ref_agree [OF ag]
  show "list_all (callable_ref g) (case cell_at g f of Some (ListCell es) \<Rightarrow> es | _ \<Rightarrow> [f])"
    unfolding e by (simp add: list_all_iff)
  from e show "isinstance_list_ref g f = isinstance_list_ref h f"
    by (simp add: isinstance_list_ref_def)
qed

section \<open>The slots of the objects built\<close>

lemma slot_ref_object: "slot_ref (h @ ConditionCell A # ws) (length h) name = map_of A name"
  by (simp add: slot_ref_def cell_at_length)

lemma map_of_values:
  "map_of ((k, w) # al) name = Some a \<Longrightarrow> a = w \<or> a \<in> snd ` set al"
  by (auto split: if_splits dest: map_of_SomeD intro: rev_image_eqI)

lemma update_values: "snd ` set (AList.update k v al) \<subseteq> insert v (snd ` set al)"
  by (induction al) auto

lemma delete_values: "snd ` set (AList.delete k al) \<subseteq> snd ` set al"
  by (auto simp: AList.delete_eq)

lemma data_weight_value:
  "(case map_of kwargs ''data_weight'' of None \<Rightarrow> float_one | Some a \<Rightarrow> a) = float_one \<or>
   (case map_of kwargs ''data_weight'' of None \<Rightarrow> float_one | Some a \<Rightarrow> a) \<in> snd ` set kwargs"
  by (cases "map_of kwargs ''data_weight''") (auto dest: map_of_SomeD intro: rev_image_eqI)

section \<open>Evaluation on concrete calls\<close>

lemmas call_eval = Condition_call_def init_def Let_def dictvalue_isinstance_def
  check_function_def setattr_def new_Condition_def

lemma keyset_eval: "keyset kwargs = set (map fst (AList.delete ''data_weight'' kwargs))"
  by (simp only: keys_pop_data_weight)

lemmas ref_eval = Condition_call_ref_def init_ref_def Let_def dictvalue_isinstance_ref_def
  check_function_ref_def setattr_ref_def alloc_def cell_at_def isinstance_ref_def
  isinstance_list_ref_def callable_ref_def float_one_def slots_def

section \<open>Properties of the constructor\<close>

text \<open>
  C1, as the code has it. A keyword named \<open>self\<close> is not a key-set the constructor
  ever tests: the call fails while the arguments are bound, with \<open>TypeError\<close>.
\<close>

theorem keyword_self_counterexample:
  "keyset [(''self'', PyInt 4)] \<notin> valid_keysets \<and>
   Condition_call [] [(''self'', PyInt 4)] = Inl (TypeError binding_message)"
  by (simp add: Condition_call_def keyset_eval valid_keysets_def)

text \<open>
  C1, amended. For keywords none of which is named \<open>self\<close>: when the key-set left
  after \<open>data_weight\<close> is popped is not one of the three allowed sets (as sets, so in
  whatever order the keys come, and also when it is a subset, a superset, a mix or
  empty), the call raises \<open>ValueError\<close>. Called with keywords only, the message is the
  one of the key-set test, which prints the keys; with a positional argument the
  earlier test gives its own message.
\<close>

theorem invalid_keyset_rejected:
  assumes "''self'' \<notin> set (map fst kwargs)" and "keyset kwargs \<notin> valid_keysets"
  shows "Condition_call args kwargs =
           Inl (ValueError (if args = [] then
                  invalid_keywords_message (map fst (AList.delete ''data_weight'' kwargs))
                else positional_message))"
proof (cases "args = []")
  case True
  from assms(2)
  have "\<not> (distinct (map fst (AList.delete ''data_weight'' kwargs)) \<and>
           set (map fst (AList.delete ''data_weight'' kwargs)) \<in> valid_keysets)"
    by (simp only: keys_pop_data_weight simp_thms)
  with True show ?thesis
    by (simp add: Condition_call_bound [OF assms(1)] init_keywords Let_def)
next
  case False
  then show ?thesis by (simp add: Condition_call_bound [OF assms(1)] init_def Let_def)
qed

theorem invalid_keyset_rejected_witness:
  "''self'' \<notin> set (map fst [(''input_points'', PyInstance LabelTensor False 0),
                              (''location'', PyInstance Location False 1)]) \<and>
   keyset [(''input_points'', PyInstance LabelTensor False 0),
           (''location'', PyInstance Location False 1)] \<notin> valid_keysets \<and>
   Condition_call [] [(''input_points'', PyInstance LabelTensor False 0),
                      (''location'', PyInstance Location False 1)] =
     Inl (ValueError ''Invalid keyword arguments dict_keys(['input_points', 'location']).'')"
proof -
  let ?kw = "[(''input_points'', PyInstance LabelTensor False 0),
              (''location'', PyInstance Location False 1)]"
  have n: "''self'' \<notin> set (map fst ?kw)" by simp
  have h: "keyset ?kw \<notin> valid_keysets"
    by (simp add: keyset_eval valid_keysets_def doubleton_eq_iff)
  have m: "invalid_keywords_message [''input_points'', ''location''] =
             ''Invalid keyword arguments dict_keys(['input_points', 'location']).''"
    by (simp add: invalid_keywords_message_def str_dict_keys_def repr_str_def repr_char_def
          isprintable_def Let_def)
  from invalid_keyset_rejected [OF n h, of "[]"] m have
    "Condition_call [] ?kw =
       Inl (ValueError ''Invalid keyword arguments dict_keys(['input_points', 'location']).'')"
    by simp
  with n h show ?thesis by (intro conjI)
qed

text \<open>
  C2. A dictionary whose key-set is one of the three allowed sets and whose values have
  the types the constructor tests (each of \<open>input_points\<close>, \<open>output_points\<close> a
  \<open>LabelTensor\<close>, \<open>location\<close> a \<open>Location\<close>, \<open>function\<close> a callable or a list of
  callables) is accepted. The slots that hold a value are then the supplied keys and
  \<open>data_weight\<close>, every supplied value other than \<open>function\<close> is read back as given,
  \<open>data_weight\<close> reads \<open>1.0\<close> when it was not supplied, and reading any other slot
  raises \<open>AttributeError\<close>.
\<close>

theorem valid_construction:
  assumes "distinct (map fst kwargs)" and "keyset kwargs \<in> valid_keysets"
    and "\<forall>v. map_of kwargs ''input_points'' = Some v \<longrightarrow> isinstance v LabelTensor"
    and "\<forall>v. map_of kwargs ''output_points'' = Some v \<longrightarrow> isinstance v LabelTensor"
    and "\<forall>v. map_of kwargs ''location'' = Some v \<longrightarrow> isinstance v Location"
    and "\<forall>v. map_of kwargs ''function'' = Some v \<longrightarrow>
            list_all callable (case v of PyList fs \<Rightarrow> fs | _ \<Rightarrow> [v])"
  shows "\<exists>obj. Condition_call [] kwargs = Inr obj \<and>
           populated obj = keyset kwargs \<union> {''data_weight''} \<and>
           (\<forall>name v. name \<noteq> ''function'' \<longrightarrow> map_of kwargs name = Some v \<longrightarrow>
                      getattr obj name = Inr v) \<and>
           (map_of kwargs ''data_weight'' = None \<longrightarrow>
              getattr obj ''data_weight'' = Inr (PyFloat 1)) \<and>
           (\<forall>name \<in> set slots. name \<notin> keyset kwargs \<union> {''data_weight''} \<longrightarrow>
              getattr obj name = Inl (AttributeError name))"
proof -
  have "dictvalue_isinstance kwargs ''input_points'' LabelTensor"
    "dictvalue_isinstance kwargs ''output_points'' LabelTensor"
    "dictvalue_isinstance kwargs ''location'' Location"
    using assms(3-5) by (simp_all add: dictvalue_isinstance_def split: option.splits)
  from call_succeeds [OF assms(1,2) this assms(6)]
  obtain obj where c: "Condition_call [] kwargs = Inr obj" ..
  note s = call_slots [OF c]
  note p = call_populated [OF c]
  have 1: "getattr obj name = Inr v" if "name \<noteq> ''function''" "map_of kwargs name = Some v"
    for name v
    using that s [of name] by (cases "name = ''data_weight''") (simp_all add: getattr_slot)
  have 2: "getattr obj ''data_weight'' = Inr (PyFloat 1)" if "map_of kwargs ''data_weight'' = None"
    using that s [of "''data_weight''"] by (simp add: getattr_slot)
  have 3: "getattr obj name = Inl (AttributeError name)"
    if "name \<in> set slots" "name \<notin> keyset kwargs \<union> {''data_weight''}" for name
  proof -
    from that(2) p have "name \<notin> populated obj" by simp
    with that(1) have "slot obj name = None" unfolding populated_def by simp
    then show ?thesis by (simp add: getattr_slot)
  qed
  show ?thesis
  proof (intro exI [where x = obj] conjI allI impI ballI)
    show "Condition_call [] kwargs = Inr obj" by (rule c)
    show "populated obj = keyset kwargs \<union> {''data_weight''}" by (rule p)
  next
    fix name v
    assume "name \<noteq> ''function''" "map_of kwargs name = Some v"
    then show "getattr obj name = Inr v" by (rule 1)
  next
    assume "map_of kwargs ''data_weight'' = None"
    then show "getattr obj ''data_weight'' = Inr (PyFloat 1)" by (rule 2)
  next
    fix name
    assume "name \<in> set slots" "name \<notin> keyset kwargs \<union> {''data_weight''}"
    then show "getattr obj name = Inl (AttributeError name)" by (rule 3)
  qed
qed

theorem valid_construction_witness:
  "\<exists>obj. Condition_call [] [(''output_points'', PyInstance LabelTensor False 2),
                             (''input_points'', PyInstance LabelTensor False 1)] = Inr obj \<and>
     populated obj = {''input_points'', ''output_points'', ''data_weight''} \<and>
     getattr obj ''input_points'' = Inr (PyInstance LabelTensor False 1) \<and>
     getattr obj ''output_points'' = Inr (PyInstance LabelTensor False 2) \<and>
     getattr obj ''data_weight'' = Inr (PyFloat 1) \<and>
     getattr obj ''location'' = Inl (AttributeError ''location'') \<and>
     getattr obj ''function'' = Inl (AttributeError ''function'')"
proof -
  let ?kw = "[(''output_points'', PyInstance LabelTensor False 2),
              (''input_points'', PyInstance LabelTensor False 1)]"
  have h1: "distinct (map fst ?kw)" by simp
  have h2: "keyset ?kw \<in> valid_keysets"
    by (simp add: keyset_eval valid_keysets_def doubleton_eq_iff)
  have h3: "\<forall>v. map_of ?kw ''input_points'' = Some v \<longrightarrow> isinstance v LabelTensor" by simp
  have h4: "\<forall>v. map_of ?kw ''output_points'' = Some v \<longrightarrow> isinstance v LabelTensor" by simp
  have h5: "\<forall>v. map_of ?kw ''location'' = Some v \<longrightarrow> isinstance v Location" by simp
  have h6: "\<forall>v. map_of ?kw ''function'' = Some v \<longrightarrow>
              list_all callable (case v of PyList fs \<Rightarrow> fs | _ \<Rightarrow> [v])" by simp
  from valid_construction [OF h1 h2 h3 h4 h5 h6] obtain obj where
    c: "Condition_call [] ?kw = Inr obj"
    and p: "populated obj = keyset ?kw \<union> {''data_weight''}"
    and g: "\<forall>name v. name \<noteq> ''function'' \<longrightarrow> map_of ?kw name = Some v \<longrightarrow>
              getattr obj name = Inr v"
    and w: "map_of ?kw ''data_weight'' = None \<longrightarrow> getattr obj ''data_weight'' = Inr (PyFloat 1)"
    and a: "\<forall>name \<in> set slots. name \<notin> keyset ?kw \<union> {''data_weight''} \<longrightarrow>
              getattr obj name = Inl (AttributeError name)"
    by (elim exE conjE)
  have p': "populated obj = {''input_points'', ''output_points'', ''data_weight''}"
    unfolding p by (simp add: keyset_eval insert_commute)
  have g1: "getattr obj ''input_points'' = Inr (PyInstance LabelTensor False 1)"
    using g [rule_format, of "''input_points''" "PyInstance LabelTensor False 1"] by simp
  have g2: "getattr obj ''output_points'' = Inr (PyInstance LabelTensor False 2)"
    using g [rule_format, of "''output_points''" "PyInstance LabelTensor False 2"] by simp
  have g3: "getattr obj ''data_weight'' = Inr (PyFloat 1)"
    using w by simp
  have a1: "getattr obj ''location'' = Inl (AttributeError ''location'')"
    using a [rule_format, of "''location''"] by (simp add: slots_def keyset_eval)
  have a2: "getattr obj ''function'' = Inl (AttributeError ''function'')"
    using a [rule_format, of "''function''"] by (simp add: slots_def keyset_eval)
  from c p' g1 g2 g3 a1 a2 show ?thesis by (intro exI [where x = obj] conjI)
qed

text \<open>
  C3, as the code has it. With a keyword named \<open>self\<close> the call fails while the
  arguments are bound, positional argument or not: the positional test is not reached.
\<close>

theorem positional_with_self_counterexample:
  "[PyInt 3] \<noteq> [] \<and>
   Condition_call [PyInt 3] [(''self'', PyInt 4)] = Inl (TypeError binding_message)"
  by (simp add: Condition_call_def)

text \<open>
  C3, amended. A call with at least one positional argument and no keyword named
  \<open>self\<close> raises the \<open>ValueError\<close> of the positional test, whatever the keywords are:
  nothing but the assignment of \<open>data_weight\<close> has happened to the object when it is
  raised.
\<close>

theorem positional_arguments_rejected:
  assumes "args \<noteq> []" and "''self'' \<notin> set (map fst kwargs)"
  shows "Condition_call args kwargs = Inl (ValueError positional_message) \<and>
         init self args kwargs =
           (self\<lparr>data_weight := Some (case map_of kwargs ''data_weight'' of
                                        None \<Rightarrow> PyFloat 1 | Some w \<Rightarrow> w)\<rparr>,
            Some (ValueError positional_message))"
  using assms(1) by (simp add: Condition_call_bound [OF assms(2)] init_def Let_def)

theorem positional_arguments_rejected_witness:
  "[PyInt 3] \<noteq> [] \<and>
   ''self'' \<notin> set (map fst [(''input_points'', PyInstance LabelTensor False 0),
                              (''output_points'', PyInstance LabelTensor False 1)]) \<and>
   Condition_call [PyInt 3] [(''input_points'', PyInstance LabelTensor False 0),
                             (''output_points'', PyInstance LabelTensor False 1)] =
     Inl (ValueError positional_message)"
proof -
  let ?kw = "[(''input_points'', PyInstance LabelTensor False 0),
              (''output_points'', PyInstance LabelTensor False 1)]"
  have a: "[PyInt 3] \<noteq> []" by simp
  have n: "''self'' \<notin> set (map fst ?kw)" by simp
  from positional_arguments_rejected [OF a n, of new_Condition]
  have "Condition_call [PyInt 3] ?kw = Inl (ValueError positional_message)" by (rule conjunct1)
  with a n show ?thesis by (intro conjI)
qed

text \<open>
  C4. In a successful call that supplies \<open>function\<close>: a value that is not a list is
  callable and is stored as the one-element list holding it; a list is stored as it is,
  same elements in the same order.
\<close>

theorem function_normalized:
  assumes "Condition_call args kwargs = Inr obj" and "map_of kwargs ''function'' = Some f"
  shows "(\<not> isinstance_list f \<longrightarrow> callable f \<and> getattr obj ''function'' = Inr (PyList [f])) \<and>
         (\<forall>fs. f = PyList fs \<longrightarrow> getattr obj ''function'' = Inr (PyList fs))"
proof -
  let ?kw = "AList.delete ''data_weight'' kwargs"
  from assms(1) have i: "init new_Condition args kwargs = (obj, None)"
    by (rule Condition_call_InrD)
  from init_None(7) [OF i] obtain kw' where cf: "check_function ?kw = Inr kw'"
    by (elim exE conjE)
  from assms(2) have "map_of ?kw ''function'' = Some f" by simp
  with check_function_Inr [OF cf]
  have c: "list_all callable (case f of PyList fs \<Rightarrow> fs | _ \<Rightarrow> [f])" by simp
  have s: "slot obj ''function'' = Some (if isinstance_list f then f else PyList [f])"
    using call_slots [OF assms(1), of "''function''"] assms(2) by simp
  have 1: "callable f" if "\<not> isinstance_list f"
    using that c by (cases f) simp_all
  show ?thesis
  proof (intro conjI allI impI)
    assume "\<not> isinstance_list f"
    then show "callable f" by (rule 1)
  next
    assume "\<not> isinstance_list f"
    with s show "getattr obj ''function'' = Inr (PyList [f])" by (simp add: getattr_slot)
  next
    fix fs
    assume "f = PyList fs"
    with s show "getattr obj ''function'' = Inr (PyList fs)" by (simp add: getattr_slot)
  qed
qed

theorem function_normalized_witness:
  "Condition_call [] [(''location'', PyInstance Location False 0), (''function'', PyFunction 7)] =
     Inr \<lparr>input_points = None, output_points = None,
          location = Some (PyInstance Location False 0),
          function = Some (PyList [PyFunction 7]), data_weight = Some (PyFloat 1)\<rparr> \<and>
   getattr \<lparr>input_points = None, output_points = None,
          location = Some (PyInstance Location False 0),
          function = Some (PyList [PyFunction 7]), data_weight = Some (PyFloat 1)\<rparr> ''function'' =
     Inr (PyList [PyFunction 7]) \<and>
   Condition_call [] [(''input_points'', PyInstance LabelTensor False 1),
                      (''function'', PyList [PyFunction 7, PyFunction 8])] =
     Inr \<lparr>input_points = Some (PyInstance LabelTensor False 1), output_points = None,
          location = None,
          function = Some (PyList [PyFunction 7, PyFunction 8]),
          data_weight = Some (PyFloat 1)\<rparr> \<and>
   getattr \<lparr>input_points = Some (PyInstance LabelTensor False 1), output_points = None,
          location = None,
          function = Some (PyList [PyFunction 7, PyFunction 8]),
          data_weight = Some (PyFloat 1)\<rparr> ''function'' =
     Inr (PyList [PyFunction 7, PyFunction 8])"
proof -
  let ?kw1 = "[(''location'', PyInstance Location False 0), (''function'', PyFunction 7)]"
  let ?kw2 = "[(''input_points'', PyInstance LabelTensor False 1),
               (''function'', PyList [PyFunction 7, PyFunction 8])]"
  have c1: "Condition_call [] ?kw1 =
     Inr \<lparr>input_points = None, output_points = None,
          location = Some (PyInstance Location False 0),
          function = Some (PyList [PyFunction 7]), data_weight = Some (PyFloat 1)\<rparr>"
    by (simp add: call_eval)
  have m1: "map_of ?kw1 ''function'' = Some (PyFunction 7)" by simp
  have c2: "Condition_call [] ?kw2 =
     Inr \<lparr>input_points = Some (PyInstance LabelTensor False 1), output_points = None,
          location = None,
          function = Some (PyList [PyFunction 7, PyFunction 8]),
          data_weight = Some (PyFloat 1)\<rparr>"
    by (simp add: call_eval)
  have m2: "map_of ?kw2 ''function'' = Some (PyList [PyFunction 7, PyFunction 8])" by simp
  from function_normalized [OF c1 m1] function_normalized [OF c2 m2] c1 c2
  show ?thesis by simp
qed

text \<open>
  C5, as the code has it. A call with \<open>function=[]\<close> succeeds and stores the empty
  list: the loop over the elements has nothing to reject.
\<close>

theorem function_empty_list_counterexample:
  "Condition_call [] [(''location'', PyInstance Location False 0), (''function'', PyList [])] =
     Inr \<lparr>input_points = None, output_points = None,
          location = Some (PyInstance Location False 0), function = Some (PyList []),
          data_weight = Some (PyFloat 1)\<rparr> \<and>
   getattr \<lparr>input_points = None, output_points = None,
          location = Some (PyInstance Location False 0), function = Some (PyList []),
          data_weight = Some (PyFloat 1)\<rparr> ''function'' = Inr (PyList [])"
  by (simp add: call_eval getattr_def slot_def)

text \<open>
  C5, amended. Whenever a constructed object has a \<open>function\<close> attribute, it is a list
  whose elements are all callable, and it is empty only when the empty list itself was
  supplied.
\<close>

theorem function_stored_as_callables:
  assumes "Condition_call args kwargs = Inr obj" and "getattr obj ''function'' = Inr v"
  shows "\<exists>fs. v = PyList fs \<and> list_all callable fs \<and>
           (fs = [] \<longrightarrow> map_of kwargs ''function'' = Some (PyList []))"
proof -
  let ?kw = "AList.delete ''data_weight'' kwargs"
  from assms(1) have i: "init new_Condition args kwargs = (obj, None)"
    by (rule Condition_call_InrD)
  from init_None(7) [OF i] obtain kw' where cf: "check_function ?kw = Inr kw'"
    by (elim exE conjE)
  from assms(2) have "slot obj ''function'' = Some v"
    by (simp add: getattr_slot split: option.splits)
  with call_slots [OF assms(1), of "''function''"]
  have "map_option (\<lambda>f. if isinstance_list f then f else PyList [f])
          (map_of kwargs ''function'') = Some v" by simp
  then obtain f where f: "map_of kwargs ''function'' = Some f"
    and v: "v = (if isinstance_list f then f else PyList [f])"
    by (cases "map_of kwargs ''function''") simp_all
  from f have "map_of ?kw ''function'' = Some f" by simp
  with check_function_Inr [OF cf]
  have c: "list_all callable (case f of PyList fs \<Rightarrow> fs | _ \<Rightarrow> [f])" by simp
  from v c f show ?thesis by (cases f) simp_all
qed

theorem function_stored_as_callables_witness:
  "Condition_call [] [(''location'', PyInstance Location False 0), (''function'', PyFunction 7)] =
     Inr \<lparr>input_points = None, output_points = None,
          location = Some (PyInstance Location False 0),
          function = Some (PyList [PyFunction 7]), data_weight = Some (PyFloat 1)\<rparr> \<and>
   list_all callable [PyFunction 7]"
proof -
  let ?kw = "[(''location'', PyInstance Location False 0), (''function'', PyFunction 7)]"
  let ?obj = "\<lparr>input_points = None, output_points = None,
          location = Some (PyInstance Location False 0),
          function = Some (PyList [PyFunction 7]), data_weight = Some (PyFloat 1)\<rparr>"
  have c: "Condition_call [] ?kw = Inr ?obj" by (simp add: call_eval)
  have g: "getattr ?obj ''function'' = Inr (PyList [PyFunction 7])"
    by (simp add: getattr_def slot_def)
  from function_stored_as_callables [OF c g]
  have "list_all callable [PyFunction 7]" by (elim exE conjE) (simp only: pyval.inject)
  with c show ?thesis by (intro conjI)
qed

text \<open>
  C6. When the call reaches the \<open>function\<close> block (keywords only, an allowed key-set,
  the three type tests passed) and the list of functions, after a bare value has been
  wrapped, has a non-callable element, the call raises \<open>TypeError\<close> with the message of
  the first such element, which prints its zero-based index \<open>i\<close>.
\<close>

theorem first_non_callable_reported:
  assumes "distinct (map fst kwargs)" and "keyset kwargs \<in> valid_keysets"
    and "dictvalue_isinstance kwargs ''input_points'' LabelTensor"
    and "dictvalue_isinstance kwargs ''output_points'' LabelTensor"
    and "dictvalue_isinstance kwargs ''location'' Location"
    and "map_of kwargs ''function'' = Some f"
    and "funcs = (case f of PyList fs \<Rightarrow> fs | _ \<Rightarrow> [f])"
    and "i < length funcs" and "\<not> callable (funcs ! i)" and "\<forall>j<i. callable (funcs ! j)"
  shows "Condition_call [] kwargs =
           Inl (TypeError (''`function['' @ str_nat i @ '']` must be a callable function.''))"
proof -
  let ?kw = "AList.delete ''data_weight'' kwargs"
  note dv = popped_checks [OF assms(1,2)]
  have i': "dictvalue_isinstance ?kw ''input_points'' LabelTensor"
    using assms(3) by (simp add: dictvalue_isinstance_pop)
  have o': "dictvalue_isinstance ?kw ''output_points'' LabelTensor"
    using assms(4) by (simp add: dictvalue_isinstance_pop)
  have l': "dictvalue_isinstance ?kw ''location'' Location"
    using assms(5) by (simp add: dictvalue_isinstance_pop)
  from assms(6) have m: "map_of ?kw ''function'' = Some f" by simp
  from check_callable_first [OF assms(8-10), of 0]
  have "check_callable 0 (case f of PyList fs \<Rightarrow> fs | _ \<Rightarrow> [f]) =
          Some (TypeError (''`function['' @ str_nat i @ '']` must be a callable function.''))"
    unfolding assms(7) by simp
  with check_function_present [OF m]
  have "check_function ?kw =
          Inl (TypeError (''`function['' @ str_nat i @ '']` must be a callable function.''))"
    by simp
  with dv i' o' l' show ?thesis
    by (simp add: Condition_call_bound [OF valid_no_self [OF assms(2)]] init_keywords Let_def)
qed

theorem first_non_callable_reported_witness:
  "Condition_call [] [(''input_points'', PyInstance LabelTensor False 1),
                      (''function'', PyList [PyFunction 7, PyInt 5, PyNone])] =
     Inl (TypeError ''`function[1]` must be a callable function.'')"
proof -
  let ?f = "PyList [PyFunction 7, PyInt 5, PyNone]"
  let ?kw = "[(''input_points'', PyInstance LabelTensor False 1), (''function'', ?f)]"
  have h1: "distinct (map fst ?kw)" by simp
  have h2: "keyset ?kw \<in> valid_keysets"
    by (simp add: keyset_eval valid_keysets_def doubleton_eq_iff)
  have h3: "dictvalue_isinstance ?kw ''input_points'' LabelTensor"
    by (simp add: dictvalue_isinstance_def)
  have h4: "dictvalue_isinstance ?kw ''output_points'' LabelTensor"
    by (simp add: dictvalue_isinstance_def)
  have h5: "dictvalue_isinstance ?kw ''location'' Location"
    by (simp add: dictvalue_isinstance_def)
  have h6: "map_of ?kw ''function'' = Some ?f" by simp
  have h7: "[PyFunction 7, PyInt 5, PyNone] = (case ?f of PyList fs \<Rightarrow> fs | _ \<Rightarrow> [?f])" by simp
  have h8: "1 < length [PyFunction 7, PyInt 5, PyNone]" by simp
  have h9: "\<not> callable ([PyFunction 7, PyInt 5, PyNone] ! 1)" by simp
  have h10: "\<forall>j<1. callable ([PyFunction 7, PyInt 5, PyNone] ! j)" by simp
  have s: "str_nat 1 = ''1''" by (simp add: digit_char_def)
  from first_non_callable_reported [OF h1 h2 h3 h4 h5 h6 h7 h8 h9 h10] s
  show ?thesis by simp
qed

text \<open>
  C7. With an allowed key-set, a present \<open>input_points\<close> or \<open>output_points\<close> that is
  not a \<open>LabelTensor\<close>, or a present \<open>location\<close> that is not a \<open>Location\<close>, makes the
  call raise \<open>TypeError\<close>; the message is the one of the first failing test in the order
  \<open>input_points\<close>, \<open>output_points\<close>, \<open>location\<close> and begins with the name of that
  field. No object is returned.
\<close>

theorem wrong_type_rejected:
  assumes "distinct (map fst kwargs)" and "keyset kwargs \<in> valid_keysets"
    and "\<not> dictvalue_isinstance kwargs ''input_points'' LabelTensor \<or>
         \<not> dictvalue_isinstance kwargs ''output_points'' LabelTensor \<or>
         \<not> dictvalue_isinstance kwargs ''location'' Location"
  shows "Condition_call [] kwargs =
           Inl (TypeError
             (if \<not> dictvalue_isinstance kwargs ''input_points'' LabelTensor
              then ''`input_points` must be a torch.Tensor.''
              else if \<not> dictvalue_isinstance kwargs ''output_points'' LabelTensor
              then ''`output_points` must be a torch.Tensor.''
              else ''`location` must be a Location.''))"
proof -
  let ?kw = "AList.delete ''data_weight'' kwargs"
  note dv = popped_checks [OF assms(1,2)]
  have i': "dictvalue_isinstance ?kw ''input_points'' LabelTensor =
            dictvalue_isinstance kwargs ''input_points'' LabelTensor"
    by (simp add: dictvalue_isinstance_pop)
  have o': "dictvalue_isinstance ?kw ''output_points'' LabelTensor =
            dictvalue_isinstance kwargs ''output_points'' LabelTensor"
    by (simp add: dictvalue_isinstance_pop)
  have l': "dictvalue_isinstance ?kw ''location'' Location =
            dictvalue_isinstance kwargs ''location'' Location"
    by (simp add: dictvalue_isinstance_pop)
  show ?thesis
  proof (cases "dictvalue_isinstance kwargs ''input_points'' LabelTensor")
    case False
    with dv i' show ?thesis by (simp add: Condition_call_bound [OF valid_no_self [OF assms(2)]] init_keywords Let_def)
  next
    case i: True
    show ?thesis
    proof (cases "dictvalue_isinstance kwargs ''output_points'' LabelTensor")
      case False
      with dv i i' o' show ?thesis by (simp add: Condition_call_bound [OF valid_no_self [OF assms(2)]] init_keywords Let_def)
    next
      case o: True
      with i assms(3) have "\<not> dictvalue_isinstance kwargs ''location'' Location" by simp
      with dv i o i' o' l' show ?thesis by (simp add: Condition_call_bound [OF valid_no_self [OF assms(2)]] init_keywords Let_def)
    qed
  qed
qed

theorem wrong_type_rejected_witness:
  "Condition_call [] [(''input_points'', PyInt 3),
                      (''output_points'', PyInstance LabelTensor False 2)] =
     Inl (TypeError ''`input_points` must be a torch.Tensor.'')"
proof -
  let ?kw = "[(''input_points'', PyInt 3), (''output_points'', PyInstance LabelTensor False 2)]"
  have h1: "distinct (map fst ?kw)" by simp
  have h2: "keyset ?kw \<in> valid_keysets"
    by (simp add: keyset_eval valid_keysets_def doubleton_eq_iff)
  have h3: "\<not> dictvalue_isinstance ?kw ''input_points'' LabelTensor"
    by (simp add: dictvalue_isinstance_def)
  from wrong_type_rejected [OF h1 h2 disjI1, OF h3]
  show ?thesis by (simp add: h3)
qed

text \<open>
  C8. A constructed object reads back as \<open>data_weight\<close> the very value supplied, or
  \<open>1.0\<close> when none was. No test looks at the value: setting \<open>data_weight\<close> to any
  \<open>w\<close> changes the outcome of a call in nothing but the stored \<open>data_weight\<close>.
\<close>

theorem data_weight_stored_verbatim:
  "(\<forall>obj. Condition_call args kwargs = Inr obj \<longrightarrow>
      getattr obj ''data_weight'' =
        Inr (case map_of kwargs ''data_weight'' of None \<Rightarrow> PyFloat 1 | Some w \<Rightarrow> w)) \<and>
   Condition_call args (AList.update ''data_weight'' w kwargs) =
     map_sum id (\<lambda>obj. obj\<lparr>data_weight := Some w\<rparr>) (Condition_call args kwargs)"
proof (intro conjI allI impI)
  fix obj
  assume "Condition_call args kwargs = Inr obj"
  from call_slots [OF this, of "''data_weight''"]
  show "getattr obj ''data_weight'' =
        Inr (case map_of kwargs ''data_weight'' of None \<Rightarrow> PyFloat 1 | Some w \<Rightarrow> w)"
    by (simp add: getattr_slot)
next
  show "Condition_call args (AList.update ''data_weight'' w kwargs) =
     map_sum id (\<lambda>obj. obj\<lparr>data_weight := Some w\<rparr>) (Condition_call args kwargs)"
  proof (cases "''self'' \<in> set (map fst kwargs)")
    case True
    then have "''self'' \<in> set (map fst (AList.update ''data_weight'' w kwargs))"
      by (simp add: AList.update_keys)
    with True show ?thesis by (simp add: Condition_call_def)
  next
    case False
    then have "''self'' \<notin> set (map fst (AList.update ''data_weight'' w kwargs))"
      by (simp add: AList.update_keys)
    from Condition_call_bound [OF this] Condition_call_bound [OF False] show ?thesis
      unfolding init_update_data_weight
      by (cases "init new_Condition args kwargs") (simp split: option.splits)
  qed
qed

theorem data_weight_stored_verbatim_witness:
  "Condition_call [] [(''input_points'', PyInstance LabelTensor False 1),
                      (''data_weight'', PyFloat (5 / 2)),
                      (''output_points'', PyInstance LabelTensor False 2)] =
     Inr \<lparr>input_points = Some (PyInstance LabelTensor False 1),
          output_points = Some (PyInstance LabelTensor False 2),
          location = None, function = None, data_weight = Some (PyFloat (5 / 2))\<rparr> \<and>
   getattr \<lparr>input_points = Some (PyInstance LabelTensor False 1),
          output_points = Some (PyInstance LabelTensor False 2),
          location = None, function = None, data_weight = Some (PyFloat (5 / 2))\<rparr>
     ''data_weight'' = Inr (PyFloat (5 / 2))"
proof -
  let ?kw = "[(''input_points'', PyInstance LabelTensor False 1),
              (''data_weight'', PyFloat (5 / 2)),
              (''output_points'', PyInstance LabelTensor False 2)]"
  have c: "Condition_call [] ?kw =
     Inr \<lparr>input_points = Some (PyInstance LabelTensor False 1),
          output_points = Some (PyInstance LabelTensor False 2),
          location = None, function = None, data_weight = Some (PyFloat (5 / 2))\<rparr>"
    by (simp add: call_eval)
  from data_weight_stored_verbatim [of "[]" ?kw PyNone, THEN conjunct1, rule_format, OF c] c
  show ?thesis by simp
qed

text \<open>
  C9. Objects taken by reference: when a call has returned an object, the same call
  made again returns a second object at another address. Neither call changes an
  object that existed before it, so the arguments are left as they were and the second
  call leaves the first object alone. Slot by slot the two objects hold equal values.
  Whatever object both of them hold was passed in by the caller or is the constant
  \<open>1.0\<close>: a list passed as \<open>function\<close> is held by both, as the object it is, while a
  bare callable is wrapped, for each object, in a list of its own.
\<close>

theorem construction_repeatable:
  assumes c: "Condition_call_ref h args kwargs = (h1, Inr o1)"
  shows "\<exists>h2 o2. Condition_call_ref h1 args kwargs = (h2, Inr o2) \<and> o2 \<noteq> o1 \<and>
           (\<forall>a<length h. cell_at h1 a = cell_at h a) \<and>
           (\<forall>a<length h1. cell_at h2 a = cell_at h1 a) \<and>
           (\<forall>name. map_option (cell_at h2) (slot_ref h2 o2 name) =
                    map_option (cell_at h2) (slot_ref h2 o1 name)) \<and>
           (\<forall>name name' a. slot_ref h2 o1 name = Some a \<longrightarrow> slot_ref h2 o2 name' = Some a \<longrightarrow>
              a \<in> snd ` set kwargs \<or> a = float_one) \<and>
           (\<forall>f. map_of kwargs ''function'' = Some f \<longrightarrow> isinstance_list_ref h f \<longrightarrow>
              slot_ref h2 o1 ''function'' = Some f \<and> slot_ref h2 o2 ''function'' = Some f) \<and>
           (\<forall>f. map_of kwargs ''function'' = Some f \<longrightarrow> \<not> isinstance_list_ref h f \<longrightarrow>
              (\<exists>l1 l2. slot_ref h2 o1 ''function'' = Some l1 \<and> slot_ref h2 o2 ''function'' = Some l2 \<and>
                 l1 \<noteq> l2 \<and> length h \<le> l1 \<and> length h \<le> l2 \<and>
                 cell_at h2 l1 = Some (ListCell [f]) \<and> cell_at h2 l2 = Some (ListCell [f])))"
proof -
  define w where "w = (case map_of kwargs ''data_weight'' of None \<Rightarrow> float_one | Some a \<Rightarrow> a)"
  define kw where "kw = AList.delete ''data_weight'' kwargs"
  define A where "A = (''data_weight'', w) # kw"
  note p = Condition_call_ref_Inr [OF c, folded kw_def]
  note a = p(1)
  have wv: "w = float_one \<or> w \<in> snd ` set kwargs"
    unfolding w_def by (rule data_weight_value)
  have kwv: "snd ` set kw \<subseteq> snd ` set kwargs"
    unfolding kw_def by (rule delete_values)
  have kwf: "map_of kw ''function'' = map_of kwargs ''function''"
    unfolding kw_def by simp
  have r1: "Condition_call_ref h [] kwargs =
    (case map_of kw ''function'' of
       None \<Rightarrow> (h @ [ConditionCell A], Inr (length h))
     | Some f \<Rightarrow>
         if isinstance_list_ref h f
         then (h @ [ConditionCell A], Inr (length h))
         else (h @ [ConditionCell ((''data_weight'', w) #
                                  AList.update ''function'' (Suc (length h)) kw),
                    ListCell [f]], Inr (length h)))"
    unfolding A_def w_def kw_def
    by (rule Condition_call_ref_accepts [OF p(2-8) [unfolded kw_def]])
  have run2: "Condition_call_ref g [] kwargs =
    (case map_of kw ''function'' of
       None \<Rightarrow> (g @ [ConditionCell A], Inr (length g))
     | Some f \<Rightarrow>
         if isinstance_list_ref h f
         then (g @ [ConditionCell A], Inr (length g))
         else (g @ [ConditionCell ((''data_weight'', w) #
                                  AList.update ''function'' (Suc (length g)) kw),
                    ListCell [f]], Inr (length g)))"
    if ag: "\<forall>a<length h. cell_at g a = cell_at h a" for g
  proof -
    have 1: "dictvalue_isinstance_ref g kw ''input_points'' LabelTensor"
      by (rule dictvalue_isinstance_ref_agree [OF ag p(5)])
    have 2: "dictvalue_isinstance_ref g kw ''output_points'' LabelTensor"
      by (rule dictvalue_isinstance_ref_agree [OF ag p(6)])
    have 3: "dictvalue_isinstance_ref g kw ''location'' Location"
      by (rule dictvalue_isinstance_ref_agree [OF ag p(7)])
    have 4: "\<forall>f. map_of kw ''function'' = Some f \<longrightarrow>
           list_all (callable_ref g) (case cell_at g f of Some (ListCell es) \<Rightarrow> es | _ \<Rightarrow> [f])"
      using p(8) function_agree(1) [OF ag] by blast
    have 5: "isinstance_list_ref g f = isinstance_list_ref h f"
      if "map_of kw ''function'' = Some f" for f
      using p(8) that function_agree(2) [OF ag] by blast
    from Condition_call_ref_accepts [OF p(2-4) [unfolded kw_def] 1 [unfolded kw_def]
        2 [unfolded kw_def] 3 [unfolded kw_def] 4 [unfolded kw_def], folded kw_def w_def, folded A_def]
      5
    show ?thesis by (simp split: option.splits)
  qed
  show ?thesis
  proof (cases "\<exists>f. map_of kw ''function'' = Some f \<and> \<not> isinstance_list_ref h f")
    case False
    with r1 c a have h1: "h1 = h @ [ConditionCell A]" and o1: "o1 = length h"
      by (auto split: option.splits if_splits)
    have ag: "\<forall>a<length h. cell_at h1 a = cell_at h a"
      unfolding h1 by (simp add: cell_at_append_lt)
    from run2 [OF ag] False
    have r2: "Condition_call_ref h1 [] kwargs = (h1 @ [ConditionCell A], Inr (length h1))"
      by (auto split: option.splits)
    let ?h2 = "h1 @ [ConditionCell A]"
    have s1: "slot_ref ?h2 o1 name = map_of A name" for name
      unfolding h1 o1 using slot_ref_object [of h A "[ConditionCell A]" name] by simp
    have s2: "slot_ref ?h2 (length h1) name = map_of A name" for name
      using slot_ref_object [of h1 A "[]" name] by simp
    have sh: "a \<in> snd ` set kwargs \<or> a = float_one" if "map_of A name = Some a" for name a
      using map_of_values [OF that [unfolded A_def]] wv kwv by auto
    show ?thesis
    proof (rule exI [where x = ?h2], rule exI [where x = "length h1"], intro conjI allI impI)
      show "Condition_call_ref h1 args kwargs = (?h2, Inr (length h1))"
        unfolding a by (rule r2)
      show "length h1 \<noteq> o1" unfolding h1 o1 by simp
    next
      fix a assume "a < length h"
      with ag show "cell_at h1 a = cell_at h a" by simp
    next
      fix a assume "a < length h1"
      then show "cell_at ?h2 a = cell_at h1 a" by (rule cell_at_append_lt)
    next
      fix name
      show "map_option (cell_at ?h2) (slot_ref ?h2 (length h1) name) =
            map_option (cell_at ?h2) (slot_ref ?h2 o1 name)"
        by (simp only: s1 s2)
    next
      fix name name' a
      assume "slot_ref ?h2 o1 name = Some a"
      then have "map_of A name = Some a" by (simp only: s1)
      then show "a \<in> snd ` set kwargs \<or> a = float_one" by (rule sh)
    next
      fix f assume "map_of kwargs ''function'' = Some f" "isinstance_list_ref h f"
      then have "map_of A ''function'' = Some f" by (simp add: A_def kwf)
      then show "slot_ref ?h2 o1 ''function'' = Some f" "slot_ref ?h2 (length h1) ''function'' = Some f"
        by (simp_all only: s1 s2)
    next
      fix f assume "map_of kwargs ''function'' = Some f" "\<not> isinstance_list_ref h f"
      with False kwf show "\<exists>l1 l2. slot_ref ?h2 o1 ''function'' = Some l1 \<and>
          slot_ref ?h2 (length h1) ''function'' = Some l2 \<and> l1 \<noteq> l2 \<and> length h \<le> l1 \<and>
          length h \<le> l2 \<and> cell_at ?h2 l1 = Some (ListCell [f]) \<and>
          cell_at ?h2 l2 = Some (ListCell [f])"
        by simp
    qed
  next
    case True
    then obtain f where f: "map_of kw ''function'' = Some f" and nl: "\<not> isinstance_list_ref h f"
      by blast
    define A1 where "A1 = (''data_weight'', w) # AList.update ''function'' (Suc (length h)) kw"
    define A2 where "A2 = (''data_weight'', w) # AList.update ''function'' (Suc (length h1)) kw"
    from r1 c a f nl have h1: "h1 = h @ [ConditionCell A1, ListCell [f]]" and o1: "o1 = length h"
      by (auto simp: A1_def)
    have ag: "\<forall>a<length h. cell_at h1 a = cell_at h a"
      unfolding h1 by (simp add: cell_at_append_lt)
    from run2 [OF ag] f nl
    have r2: "Condition_call_ref h1 [] kwargs =
                (h1 @ [ConditionCell A2, ListCell [f]], Inr (length h1))"
      by (simp add: A2_def)
    let ?h2 = "h1 @ [ConditionCell A2, ListCell [f]]"
    have s1: "slot_ref ?h2 o1 name = map_of A1 name" for name
      unfolding h1 o1
      using slot_ref_object [of h A1 "[ListCell [f], ConditionCell A2, ListCell [f]]" name]
      by simp
    have s2: "slot_ref ?h2 (length h1) name = map_of A2 name" for name
      using slot_ref_object [of h1 A2 "[ListCell [f]]" name] by simp
    have l1: "cell_at ?h2 (Suc (length h)) = Some (ListCell [f])"
      unfolding h1 using cell_at_length [of "h @ [ConditionCell A1]" "ListCell [f]"
          "[ConditionCell A2, ListCell [f]]"] by simp
    have l2: "cell_at ?h2 (Suc (length h1)) = Some (ListCell [f])"
      using cell_at_length [of "h1 @ [ConditionCell A2]" "ListCell [f]" "[]"] by simp
    have m1: "map_of A1 name =
        (if name = ''data_weight'' then Some w
         else if name = ''function'' then Some (Suc (length h)) else map_of kw name)" for name
      by (simp add: A1_def AList.update_conv')
    have m2: "map_of A2 name =
        (if name = ''data_weight'' then Some w
         else if name = ''function'' then Some (Suc (length h1)) else map_of kw name)" for name
      by (simp add: A2_def AList.update_conv')
    have v1: "a = w \<or> a = Suc (length h) \<or> a \<in> snd ` set kw" if "map_of A1 name = Some a"
      for name a
      using map_of_values [OF that [unfolded A1_def]]
        update_values [of "''function''" "Suc (length h)" kw] by auto
    have v2: "a = w \<or> a = Suc (length h1) \<or> a \<in> snd ` set kw" if "map_of A2 name = Some a"
      for name a
      using map_of_values [OF that [unfolded A2_def]]
        update_values [of "''function''" "Suc (length h1)" kw] by auto
    have ne: "Suc (length h) \<noteq> Suc (length h1)" unfolding h1 by simp
    show ?thesis
    proof (rule exI [where x = ?h2], rule exI [where x = "length h1"], intro conjI allI impI)
      show "Condition_call_ref h1 args kwargs = (?h2, Inr (length h1))"
        unfolding a by (rule r2)
      show "length h1 \<noteq> o1" unfolding h1 o1 by simp
    next
      fix a assume "a < length h"
      with ag show "cell_at h1 a = cell_at h a" by simp
    next
      fix a assume "a < length h1"
      then show "cell_at ?h2 a = cell_at h1 a" by (rule cell_at_append_lt)
    next
      fix name
      show "map_option (cell_at ?h2) (slot_ref ?h2 (length h1) name) =
            map_option (cell_at ?h2) (slot_ref ?h2 o1 name)"
        unfolding s1 s2 m1 m2 using l1 l2 by simp
    next
      fix name name' a
      assume "slot_ref ?h2 o1 name = Some a" "slot_ref ?h2 (length h1) name' = Some a"
      then have "map_of A1 name = Some a" "map_of A2 name' = Some a" by (simp_all only: s1 s2)
      from v1 [OF this(1)] v2 [OF this(2)] ne wv kwv
      show "a \<in> snd ` set kwargs \<or> a = float_one" by auto
    next
      fix f' assume "map_of kwargs ''function'' = Some f'" "isinstance_list_ref h f'"
      with f nl kwf have False by simp
      then show "slot_ref ?h2 o1 ''function'' = Some f'"
        "slot_ref ?h2 (length h1) ''function'' = Some f'" by simp_all
    next
      fix f' assume "map_of kwargs ''function'' = Some f'" "\<not> isinstance_list_ref h f'"
      with f kwf have ff: "f' = f" by simp
      have "slot_ref ?h2 o1 ''function'' = Some (Suc (length h))"
        "slot_ref ?h2 (length h1) ''function'' = Some (Suc (length h1))"
        by (simp_all add: s1 s2 m1 m2)
      moreover have "length h \<le> Suc (length h)" "length h \<le> Suc (length h1)"
        unfolding h1 by simp_all
      ultimately show "\<exists>l1 l2. slot_ref ?h2 o1 ''function'' = Some l1 \<and>
          slot_ref ?h2 (length h1) ''function'' = Some l2 \<and> l1 \<noteq> l2 \<and> length h \<le> l1 \<and>
          length h \<le> l2 \<and> cell_at ?h2 l1 = Some (ListCell [f']) \<and>
          cell_at ?h2 l2 = Some (ListCell [f'])"
        using ne l1 l2 unfolding ff by (intro exI conjI)
    qed
  qed
qed


theorem construction_repeatable_witness:
  "Condition_call_ref
     [Atom (PyFloat 1), Atom (PyInstance Location False 0), Atom (PyFunction 7)] []
     [(''location'', 1), (''function'', 2)] =
     ([Atom (PyFloat 1), Atom (PyInstance Location False 0), Atom (PyFunction 7),
       ConditionCell [(''data_weight'', 0), (''location'', 1), (''function'', 4)],
       ListCell [2]], Inr 3) \<and>
   (\<exists>h2 o2.
      Condition_call_ref
        [Atom (PyFloat 1), Atom (PyInstance Location False 0), Atom (PyFunction 7),
         ConditionCell [(''data_weight'', 0), (''location'', 1), (''function'', 4)],
         ListCell [2]] []
        [(''location'', 1), (''function'', 2)] = (h2, Inr o2) \<and>
      o2 \<noteq> 3 \<and>
      cell_at h2 3 =
        Some (ConditionCell [(''data_weight'', 0), (''location'', 1), (''function'', 4)]) \<and>
      map_option (cell_at h2) (slot_ref h2 o2 ''function'') =
        map_option (cell_at h2) (slot_ref h2 3 ''function''))"
proof -
  let ?h = "[Atom (PyFloat 1), Atom (PyInstance Location False 0), Atom (PyFunction 7)]"
  let ?kw = "[(''location'', 1), (''function'', 2)] :: kwargs_ref"
  let ?h1 = "?h @ [ConditionCell [(''data_weight'', 0), (''location'', 1), (''function'', 4)],
                   ListCell [2]]"
  have c: "Condition_call_ref ?h [] ?kw = (?h1, Inr 3)"
    by (simp add: ref_eval)
  from construction_repeatable [OF c] obtain h2 o2 where
    r: "Condition_call_ref ?h1 [] ?kw = (h2, Inr o2)" and n: "o2 \<noteq> 3"
    and k: "\<forall>a<length ?h1. cell_at h2 a = cell_at ?h1 a"
    and e: "\<forall>name. map_option (cell_at h2) (slot_ref h2 o2 name) =
                    map_option (cell_at h2) (slot_ref h2 3 name)"
    by (elim exE conjE)
  from k have "cell_at h2 3 = cell_at ?h1 3" by simp
  then have k3: "cell_at h2 3 =
        Some (ConditionCell [(''data_weight'', 0), (''location'', 1), (''function'', 4)])"
    by (simp add: cell_at_def)
  from e have e': "map_option (cell_at h2) (slot_ref h2 o2 ''function'') =
        map_option (cell_at h2) (slot_ref h2 3 ''function'')" by (rule spec)
  from r n k3 e' have "\<exists>h2 o2. Condition_call_ref ?h1 [] ?kw = (h2, Inr o2) \<and> o2 \<noteq> 3 \<and>
      cell_at h2 3 =
        Some (ConditionCell [(''data_weight'', 0), (''location'', 1), (''function'', 4)]) \<and>
      map_option (cell_at h2) (slot_ref h2 o2 ''function'') =
        map_option (cell_at h2) (slot_ref h2 3 ''function'')"
    by (intro exI conjI)
  with c show ?thesis by simp
qed

text \<open>
  C10. On a constructed object, reading a slot that is neither one of the supplied
  keys nor \<open>data_weight\<close> raises \<open>AttributeError\<close>. The attributes the object has are
  the supplied keys and \<open>data_weight\<close>, and every supplied key is one of the five
  names of \<open>__slots__\<close>: a call with any other keyword constructs no object.
\<close>

theorem absent_attributes_raise:
  assumes "Condition_call args kwargs = Inr obj"
  shows "(\<forall>name \<in> set slots. name \<notin> keyset kwargs \<union> {''data_weight''} \<longrightarrow>
            getattr obj name = Inl (AttributeError name)) \<and>
         populated obj = keyset kwargs \<union> {''data_weight''} \<and>
         set (map fst kwargs) \<subseteq> set slots"
proof -
  note p = call_populated [OF assms]
  have 1: "getattr obj name = Inl (AttributeError name)"
    if "name \<in> set slots" "name \<notin> keyset kwargs \<union> {''data_weight''}" for name
  proof -
    from that(2) p have "name \<notin> populated obj" by simp
    with that(1) have "slot obj name = None" unfolding populated_def by simp
    then show ?thesis by (simp add: getattr_slot)
  qed
  have 2: "set (map fst kwargs) \<subseteq> set slots"
  proof
    fix k
    assume k: "k \<in> set (map fst kwargs)"
    show "k \<in> set slots"
    proof (cases "k = ''data_weight''")
      case True
      then show ?thesis by (simp add: slots_def)
    next
      case False
      with k have "k \<in> keyset kwargs" by (simp add: keyset_def)
      with valid_keysets_slots [OF call_valid(3) [OF assms]] show ?thesis by (rule subsetD)
    qed
  qed
  show ?thesis
  proof (intro conjI allI impI ballI)
    fix name
    assume "name \<in> set slots" "name \<notin> keyset kwargs \<union> {''data_weight''}"
    then show "getattr obj name = Inl (AttributeError name)" by (rule 1)
  next
    show "populated obj = keyset kwargs \<union> {''data_weight''}" by (rule p)
  next
    show "set (map fst kwargs) \<subseteq> set slots" by (rule 2)
  qed
qed

theorem absent_attributes_raise_witness:
  "Condition_call [] [(''input_points'', PyInstance LabelTensor False 1),
                      (''output_points'', PyInstance LabelTensor False 2)] =
     Inr \<lparr>input_points = Some (PyInstance LabelTensor False 1),
          output_points = Some (PyInstance LabelTensor False 2),
          location = None, function = None, data_weight = Some (PyFloat 1)\<rparr> \<and>
   getattr \<lparr>input_points = Some (PyInstance LabelTensor False 1),
          output_points = Some (PyInstance LabelTensor False 2),
          location = None, function = None, data_weight = Some (PyFloat 1)\<rparr> ''function'' =
     Inl (AttributeError ''function'') \<and>
   getattr \<lparr>input_points = Some (PyInstance LabelTensor False 1),
          output_points = Some (PyInstance LabelTensor False 2),
          location = None, function = None, data_weight = Some (PyFloat 1)\<rparr> ''location'' =
     Inl (AttributeError ''location'') \<and>
   populated \<lparr>input_points = Some (PyInstance LabelTensor False 1),
          output_points = Some (PyInstance LabelTensor False 2),
          location = None, function = None, data_weight = Some (PyFloat 1)\<rparr> =
     {''input_points'', ''output_points'', ''data_weight''}"
proof -
  let ?kw = "[(''input_points'', PyInstance LabelTensor False 1),
              (''output_points'', PyInstance LabelTensor False 2)]"
  let ?obj = "\<lparr>input_points = Some (PyInstance LabelTensor False 1),
          output_points = Some (PyInstance LabelTensor False 2),
          location = None, function = None, data_weight = Some (PyFloat 1)\<rparr>"
  have c: "Condition_call [] ?kw = Inr ?obj" by (simp add: call_eval)
  note t = absent_attributes_raise [OF c]
  from t have a: "\<forall>name \<in> set slots. name \<notin> keyset ?kw \<union> {''data_weight''} \<longrightarrow>
                    getattr ?obj name = Inl (AttributeError name)" by (rule conjunct1)
  from t have p: "populated ?obj = keyset ?kw \<union> {''data_weight''}" by (elim conjE)
  have 1: "getattr ?obj ''function'' = Inl (AttributeError ''function'')"
    using a [rule_format, of "''function''"] by (simp add: slots_def keyset_eval)
  have 2: "getattr ?obj ''location'' = Inl (AttributeError ''location'')"
    using a [rule_format, of "''location''"] by (simp add: slots_def keyset_eval)
  have 3: "populated ?obj = {''input_points'', ''output_points'', ''data_weight''}"
    unfolding p by (simp add: keyset_eval insert_commute)
  from c 1 2 3 show ?thesis by (intro conjI)
qed

end
